theory Spec2Isabelle
  imports Main "HOL-Library.Sublist"
begin

section \<open>Exceptions, events and the world\<close>

text \<open>
  The startup code of \<^verbatim>\<open>main.py\<close> is a sequence of calls into collaborators (the data
  manager, the logbook, the configuration, Qt). The model threads a world through the
  calls: every call a collaborator receives is appended to a trace, and what a collaborator
  answers (return or raise) is read from an environment.

  \<open>exn\<close> stands for the instances of Python's \<^verbatim>\<open>Exception\<close> that a collaborator may raise;
  \<open>str\<close> is \<^verbatim>\<open>str(e)\<close>. \<^verbatim>\<open>SystemExit\<close> is not an \<^verbatim>\<open>Exception\<close>: it is raised by
  \<^verbatim>\<open>sys.exit\<close> only and no \<^verbatim>\<open>except Exception\<close> of the source catches it.
\<close>

datatype exn = Exception string

fun str :: "exn \<Rightarrow> string" where
  "str (Exception m) = m"

datatype terminal_failure = TerminalFailure "exn option"

datatype outcome = SystemExit int | Uncaught exn | UncaughtTerminal terminal_failure

datatype level = info | warning | error

datatype dataset = PrimaryData | DefaultData

datatype event =
    CreateQApplication
  | InitLogBook string
  | Log string string string level
  | LoadData string "nat option"
  | CreateDefaultData
  | AttemptFailed nat exn
  | Delay nat
  | WarningDialog string string
  | CriticalDialog string string
  | SetWindowIcon string
  | Mkdir string
  | CreateAuthService
  | CreateMainWindow
  | CreateSplashScreen string string string
  | SplashShow
  | ConnectSplashClosed
  | AppExec
  | SplashClosedSignal
  | SlotRaised exn
  | SetAuthService
  | WindowShow
  | CheckForUpdates
  | CurrentText
  | UpdateDashboard string
  | UpdateParkName string
  | UpdateSelectedPark string
  | MonitorMemoryUsage

record world =
  trace :: "event list"
  data_model :: "dataset option"
  loads :: nat
  creates :: nat

definition init_world :: world where
  "init_world = \<lparr>trace = [], data_model = None, loads = 0, creates = 0\<rparr>"

definition emit :: "event \<Rightarrow> world \<Rightarrow> world" where
  "emit e w = w\<lparr>trace := trace w @ [e]\<rparr>"

text \<open>
  The environment: what the configuration returns, and how each collaborator call ends.
  \<open>icon_path\<close>, \<open>logo_path\<close> and \<open>fallback_logo_path\<close> are the strings of the three paths
  the code builds under the icons directory (\<^verbatim>\<open>logo_app.ico\<close>, \<^verbatim>\<open>splash_icon.svg\<close>,
  \<^verbatim>\<open>fallback_logo.svg\<close>), as \<^verbatim>\<open>pathlib\<close> renders them; \<open>gif_dir\<close> is the string of the
  GIF directory.
  The data manager's two operations may be called several times (the retry wrapper), so
  their answers are indexed by the number of earlier calls. Logging, dialogs and the
  configuration lookups return normally.
\<close>

record env =
  username :: string
  log_file :: string
  data_file_path :: string
  icon_path :: string
  logo_path :: string
  fallback_logo_path :: string
  gif_dir :: string
  retry_max_attempts :: nat
  retry_retryable :: "exn \<Rightarrow> bool"
  load_data_exc :: "nat \<Rightarrow> exn option"
  create_default_data_exc :: "nat \<Rightarrow> exn option"
  gif_is_dir :: bool
  mkdir_exc :: "exn option"
  logo_exists :: bool
  fallback_logo_exists :: bool
  auth_service_exc :: "exn option"
  main_window_exc :: "exn option"
  splash_screen_exc :: "exn option"
  splash_show_exc :: "exn option"
  splash_closes :: bool
  exec_code :: int
  has_set_auth_service :: bool
  set_auth_service_exc :: "exn option"
  window_show_exc :: "exn option"
  check_for_updates_exc :: "exn option"
  current_text :: "exn + string"
  update_dashboard_exc :: "exn option"
  has_import_raw_data_page :: bool
  update_park_name_exc :: "exn option"
  update_selected_park_exc :: "exn option"
  monitor_memory_exc :: "exn option"

section \<open>Collaborators\<close>

text \<open>\<^verbatim>\<open>LogBook.log_event(username, category, message, level)\<close>.\<close>

definition log_event :: "string \<Rightarrow> string \<Rightarrow> string \<Rightarrow> level \<Rightarrow> world \<Rightarrow> world" where
  "log_event u c m l w = emit (Log u c m l) w"

text \<open>
  \<^verbatim>\<open>WindFarmDataManager.load_data\<close> and \<^verbatim>\<open>create_default_data\<close>: a call that returns
  leaves the data model loaded (the primary dataset, the default dataset); a call that
  raises leaves it as it was.
\<close>

definition WindFarmDataManager_load_data ::
  "env \<Rightarrow> string \<Rightarrow> nat option \<Rightarrow> world \<Rightarrow> (exn + unit) \<times> world" where
  "WindFarmDataManager_load_data E path chunk w =
     (let w1 = emit (LoadData path chunk) (w\<lparr>loads := Suc (loads w)\<rparr>) in
      case load_data_exc E (loads w) of
        Some e \<Rightarrow> (Inl e, w1)
      | None \<Rightarrow> (Inr (), w1\<lparr>data_model := Some PrimaryData\<rparr>))"

definition WindFarmDataManager_create_default_data :: "env \<Rightarrow> world \<Rightarrow> (exn + unit) \<times> world" where
  "WindFarmDataManager_create_default_data E w =
     (let w1 = emit CreateDefaultData (w\<lparr>creates := Suc (creates w)\<rparr>) in
      case create_default_data_exc E (creates w) of
        Some e \<Rightarrow> (Inl e, w1)
      | None \<Rightarrow> (Inr (), w1\<lparr>data_model := Some DefaultData\<rparr>))"

text \<open>A collaborator call with no result: the call is recorded, then it returns or raises.\<close>

definition call :: "event \<Rightarrow> exn option \<Rightarrow> world \<Rightarrow> (exn + unit) \<times> world" where
  "call ev x w = (case x of Some e \<Rightarrow> (Inl e, emit ev w) | None \<Rightarrow> (Inr (), emit ev w))"

section \<open>The retry wrapper\<close>

record 's retry_policy =
  max_attempts :: nat
  retryable :: "exn \<Rightarrow> bool"
  log_attempt :: "nat \<Rightarrow> exn \<Rightarrow> 's \<Rightarrow> 's"
  delay :: "nat \<Rightarrow> 's \<Rightarrow> 's"

text \<open>
  Modelled from the spec: \<^verbatim>\<open>ErrorRecoveryManager.file_operation_retry\<close>
  (\<^verbatim>\<open>core/services/error_recovery.py\<close>) is not among the sources. Section 4.1 of the
  specification: execute up to N attempts; each attempt failure is logged with attempt
  index and cause; on a retryable failure, wait according to the delay strategy and
  retry; on a terminal failure or exhaustion of attempts, propagate a TerminalFailure to
  the caller. A value the operation returns is a success, whatever the value.
  \<open>attempts P i k\<close> is the loop at attempt number \<open>i\<close> with \<open>k\<close> attempts left.
\<close>

fun attempts ::
  "'s retry_policy \<Rightarrow> nat \<Rightarrow> nat \<Rightarrow> ('s \<Rightarrow> (exn + 'a) \<times> 's) \<Rightarrow> 's \<Rightarrow> (terminal_failure + 'a) \<times> 's" where
  "attempts P i 0 f s = (Inl (TerminalFailure None), s)"
| "attempts P i (Suc k) f s =
     (case f s of
        (Inr v, s1) \<Rightarrow> (Inr v, s1)
      | (Inl e, s1) \<Rightarrow>
          (let s2 = log_attempt P i e s1 in
           if retryable P e \<and> k \<noteq> 0 then attempts P (Suc i) k f (delay P i s2)
           else (Inl (TerminalFailure (Some e)), s2)))"

definition file_operation_retry ::
  "'s retry_policy \<Rightarrow> ('s \<Rightarrow> (exn + 'a) \<times> 's) \<Rightarrow> 's \<Rightarrow> (terminal_failure + 'a) \<times> 's" where
  "file_operation_retry P f s = attempts P 1 (max_attempts P) f s"

definition policy :: "env \<Rightarrow> world retry_policy" where
  "policy E = \<lparr>max_attempts = retry_max_attempts E, retryable = retry_retryable E,
               log_attempt = (\<lambda>i e. emit (AttemptFailed i e)), delay = (\<lambda>i. emit (Delay i))\<rparr>"

section \<open>Data bootstrap\<close>

text \<open>
  The body of \<^verbatim>\<open>load_data\<close> (lines 36 to 55). \<^verbatim>\<open>if chunk_size:\<close> is false for
  \<^verbatim>\<open>None\<close> and for 0. An exception of \<^verbatim>\<open>create_default_data\<close> is raised inside the
  handler, so it leaves the body.
\<close>

definition load_data_body :: "env \<Rightarrow> string \<Rightarrow> nat option \<Rightarrow> world \<Rightarrow> (exn + bool) \<times> world" where
  "load_data_body E data_path chunk_size w =
     (case WindFarmDataManager_load_data E data_path
             (case chunk_size of Some c \<Rightarrow> (if c \<noteq> 0 then Some c else None) | None \<Rightarrow> None) w of
        (Inr u, w1) \<Rightarrow> (Inr True, w1)
      | (Inl e, w1) \<Rightarrow>
          (let w2 = log_event (username E) ''Data Loading Error''
                      (''Error loading data: '' @ str e) error w1 in
           if sublist ''No such file or directory'' (str e) then
             (let w3 = log_event (username E) ''Data Creation''
                         ''Creating default data file...'' info w2 in
              case WindFarmDataManager_create_default_data E w3 of
                (Inl e', w4) \<Rightarrow> (Inl e', w4)
              | (Inr u, w4) \<Rightarrow> (Inr True, w4))
           else (Inr False, w2)))"

definition load_data :: "env \<Rightarrow> string \<Rightarrow> nat option \<Rightarrow> world \<Rightarrow> (terminal_failure + bool) \<times> world" where
  "load_data E data_path chunk_size = file_operation_retry (policy E) (load_data_body E data_path chunk_size)"

definition fallback_message :: string where
  "fallback_message =
     ''Failed to load application data. The application will start with minimal functionality.'' @
     [CHR 0x0A, CHR 0x0A] @
     ''Please check the log file for details and contact support if the problem persists.''"

definition create_empty_data_fallback_impl :: "env \<Rightarrow> world \<Rightarrow> (exn + unit) \<times> world" where
  "create_empty_data_fallback_impl E w =
     (let w1 = log_event (username E) ''Data Loading Fallback''
                 ''Creating empty default data to allow application to start'' warning w in
      case WindFarmDataManager_create_default_data E w1 of
        (Inl e, w2) \<Rightarrow> (Inl e, w2)
      | (Inr u, w2) \<Rightarrow> (Inr (), emit (WarningDialog ''Data Loading Error'' fallback_message) w2))"

definition create_empty_data_fallback :: "env \<Rightarrow> world \<Rightarrow> (terminal_failure + unit) \<times> world" where
  "create_empty_data_fallback E = file_operation_retry (policy E) (create_empty_data_fallback_impl E)"

text \<open>
  Lines 105 to 110 of \<^verbatim>\<open>main\<close>: the value \<^verbatim>\<open>load_data\<close> returns is dropped; the
  fallback runs only when \<^verbatim>\<open>load_data\<close> raises, and what the fallback raises leaves
  \<^verbatim>\<open>main\<close>.
\<close>

definition bootstrap_data :: "env \<Rightarrow> world \<Rightarrow> (outcome + unit) \<times> world" where
  "bootstrap_data E w =
     (case load_data E (data_file_path E) None w of
        (Inr b, w1) \<Rightarrow> (Inr (), w1)
      | (Inl t, w1) \<Rightarrow>
          (case create_empty_data_fallback E w1 of
             (Inr u, w2) \<Rightarrow> (Inr (), w2)
           | (Inl t', w2) \<Rightarrow> (Inl (UncaughtTerminal t'), w2)))"

section \<open>Resource resolution\<close>

definition nl2 :: string where
  "nl2 = [CHR 0x0A, CHR 0x0A]"

definition gif_error_content :: "string \<Rightarrow> exn \<Rightarrow> string" where
  "gif_error_content d e =
     ''GIF directory not found and could not be created: '' @ d @ nl2 @
     ''Error: '' @ str e @ nl2 @ ''The application will now exit.''"

text \<open>Lines 121 to 134.\<close>

definition resolve_gif_directory :: "env \<Rightarrow> world \<Rightarrow> (outcome + unit) \<times> world" where
  "resolve_gif_directory E w =
     (if \<not> gif_is_dir E then
        (case call (Mkdir (gif_dir E)) (mkdir_exc E) w of
           (Inr u, w1) \<Rightarrow>
             (Inr (), log_event (username E) ''Resource Creation''
                        (''Created missing GIF directory: '' @ gif_dir E) info w1)
         | (Inl e, w1) \<Rightarrow>
             (let w2 = log_event (username E) ''Resource Error''
                         (''GIF directory not found and could not be created: '' @ gif_dir E) error w1;
                  w3 = log_event (username E) ''Resource Error'' (''Error: '' @ str e) error w2;
                  w4 = emit (CriticalDialog ''Resource Error'' (gif_error_content (gif_dir E) e)) w3
              in (Inl (SystemExit 1), w4)))
      else (Inr (), w))"

definition logo_error_content :: "string \<Rightarrow> string" where
  "logo_error_content p =
     ''Logo file not found: '' @ p @ nl2 @
     ''No fallback logo available. The application will now exit.''"

text \<open>Lines 117 and 136 to 150; the result is the value of \<^verbatim>\<open>LOGO_PATH\<close> afterwards.\<close>

definition resolve_logo :: "env \<Rightarrow> world \<Rightarrow> (outcome + string) \<times> world" where
  "resolve_logo E w =
     (let LOGO_PATH = logo_path E in
      if \<not> logo_exists E then
        (let w1 = log_event (username E) ''Resource Warning''
                    (''Logo file not found: '' @ LOGO_PATH) warning w;
             fallback_logo = fallback_logo_path E
         in if fallback_logo_exists E then
              (Inr fallback_logo,
               log_event (username E) ''Resource Fallback''
                 (''Using fallback logo: '' @ fallback_logo) info w1)
            else
              (Inl (SystemExit 1),
               emit (CriticalDialog ''Resource Error'' (logo_error_content LOGO_PATH)) w1))
      else (Inr LOGO_PATH, w))"

section \<open>Deferred activation\<close>

text \<open>Lines 184 to 192: the update check.\<close>

definition update_check :: "env \<Rightarrow> world \<Rightarrow> world" where
  "update_check E w =
     (case call CheckForUpdates (check_for_updates_exc E) w of
        (Inr u, w1) \<Rightarrow> w1
      | (Inl e, w1) \<Rightarrow>
          log_event (username E) ''Update Check Error''
            (''Error checking for updates: '' @ str e) error w1)"

text \<open>Lines 197 to 207: the body of the second \<^verbatim>\<open>try\<close>.\<close>

definition dashboard_updates :: "env \<Rightarrow> world \<Rightarrow> (exn + unit) \<times> world" where
  "dashboard_updates E w =
     (let w1 = emit CurrentText w in
      case current_text E of
        Inl e \<Rightarrow> (Inl e, w1)
      | Inr selected_park \<Rightarrow>
          if selected_park \<noteq> [] then
            (case call (UpdateDashboard selected_park) (update_dashboard_exc E) w1 of
               (Inl e, w2) \<Rightarrow> (Inl e, w2)
             | (Inr u, w2) \<Rightarrow>
                 (case (if has_import_raw_data_page E
                        then call (UpdateParkName selected_park) (update_park_name_exc E) w2
                        else (Inr (), w2)) of
                    (Inl e, w3) \<Rightarrow> (Inl e, w3)
                  | (Inr u, w3) \<Rightarrow>
                      call (UpdateSelectedPark selected_park) (update_selected_park_exc E) w3))
          else (Inr (), w1))"

definition dashboard_error_content :: string where
  "dashboard_error_content =
     ''Error initializing the dashboard. Some features may not work correctly.'' @ nl2 @
     ''Please check the application log for details.''"

text \<open>Lines 196 to 221.\<close>

definition init_dashboard :: "env \<Rightarrow> world \<Rightarrow> world" where
  "init_dashboard E w =
     (case dashboard_updates E w of
        (Inr u, w1) \<Rightarrow> w1
      | (Inl e, w1) \<Rightarrow>
          emit (WarningDialog ''Dashboard Error'' dashboard_error_content)
            (log_event (username E) ''Dashboard Initialization Error''
               (''Error initializing dashboard: '' @ str e) error w1))"

text \<open>Lines 224 to 233.\<close>

definition monitor_memory :: "env \<Rightarrow> world \<Rightarrow> world" where
  "monitor_memory E w =
     (case call MonitorMemoryUsage (monitor_memory_exc E) w of
        (Inr u, w1) \<Rightarrow> w1
      | (Inl e, w1) \<Rightarrow>
          log_event (username E) ''Memory Monitoring Error''
            (''Error monitoring memory usage: '' @ str e) warning w1)"

text \<open>
  \<^verbatim>\<open>on_splash_closed\<close>, lines 172 to 233. The first two statements stand outside
  every \<^verbatim>\<open>try\<close>: what they raise leaves the handler.
\<close>

definition on_splash_closed :: "env \<Rightarrow> world \<Rightarrow> (exn + unit) \<times> world" where
  "on_splash_closed E w =
     (case (if has_set_auth_service E then call SetAuthService (set_auth_service_exc E) w
            else (Inr (), w)) of
        (Inl e, w1) \<Rightarrow> (Inl e, w1)
      | (Inr u, w1) \<Rightarrow>
          (case call WindowShow (window_show_exc E) w1 of
             (Inl e, w2) \<Rightarrow> (Inl e, w2)
           | (Inr u, w2) \<Rightarrow> (Inr (), monitor_memory E (init_dashboard E (update_check E w2)))))"

section \<open>The startup sequence\<close>

text \<open>
  The event loop of \<^verbatim>\<open>app.exec()\<close>: the handler connected to \<^verbatim>\<open>splash_closed\<close> is
  called when the splash screen emits the signal, and not otherwise. An exception that
  leaves the slot is reported by the binding and the loop goes on.
\<close>

definition app_exec :: "env \<Rightarrow> world \<Rightarrow> world" where
  "app_exec E w =
     (let w1 = emit AppExec w in
      if splash_closes E then
        (case on_splash_closed E (emit SplashClosedSignal w1) of
           (Inr u, w2) \<Rightarrow> w2
         | (Inl e, w2) \<Rightarrow> emit (SlotRaised e) w2)
      else w1)"

text \<open>Lines 98 to 102.\<close>

definition init_logging :: "env \<Rightarrow> world \<Rightarrow> world" where
  "init_logging E w = emit (InitLogBook (log_file E)) (emit CreateQApplication w)"

text \<open>
  Lines 152 to 170 and 235: the services, the window and the splash screen. The splash
  screen is recorded with its GIF directory, version text and logo path; the three
  appearance settings read from the configuration are left out.
\<close>

definition show_splash :: "env \<Rightarrow> string \<Rightarrow> world \<Rightarrow> (outcome + unit) \<times> world" where
  "show_splash E LOGO_PATH w =
     (case call CreateAuthService (auth_service_exc E) w of
        (Inl e, w1) \<Rightarrow> (Inl (Uncaught e), w1)
      | (Inr u, w1) \<Rightarrow>
     (case call CreateMainWindow (main_window_exc E) w1 of
        (Inl e, w2) \<Rightarrow> (Inl (Uncaught e), w2)
      | (Inr u, w2) \<Rightarrow>
     (case call (CreateSplashScreen (gif_dir E) ''PYE'' LOGO_PATH) (splash_screen_exc E) w2 of
        (Inl e, w3) \<Rightarrow> (Inl (Uncaught e), w3)
      | (Inr u, w3) \<Rightarrow>
     (case call SplashShow (splash_show_exc E) w3 of
        (Inl e, w4) \<Rightarrow> (Inl (Uncaught e), w4)
      | (Inr u, w4) \<Rightarrow> (Inr (), emit ConnectSplashClosed w4)))))"

text \<open>Lines 136 to 235: the logo, then the services, the window and the splash screen.\<close>

definition logo_and_splash :: "env \<Rightarrow> world \<Rightarrow> (outcome + unit) \<times> world" where
  "logo_and_splash E w =
     (case resolve_logo E w of
        (Inl x, w1) \<Rightarrow> (Inl x, w1)
      | (Inr LOGO_PATH, w1) \<Rightarrow> show_splash E LOGO_PATH w1)"

text \<open>Lines 112 to 235: what follows the data bootstrap.\<close>

definition resources_and_splash :: "env \<Rightarrow> world \<Rightarrow> (outcome + unit) \<times> world" where
  "resources_and_splash E w =
     (case resolve_gif_directory E
             (emit (SetWindowIcon (icon_path E)) w) of
        (Inl x, w1) \<Rightarrow> (Inl x, w1)
      | (Inr u, w1) \<Rightarrow> logo_and_splash E w1)"

text \<open>
  The body of \<^verbatim>\<open>main\<close> up to line 235, the part that runs before the event loop.
\<close>

definition main_sync :: "env \<Rightarrow> world \<Rightarrow> (outcome + unit) \<times> world" where
  "main_sync E w =
     (case bootstrap_data E (init_logging E w) of
        (Inl x, w1) \<Rightarrow> (Inl x, w1)
      | (Inr u, w1) \<Rightarrow> resources_and_splash E w1)"

text \<open>
  The body of \<^verbatim>\<open>main\<close>: the sequence, then \<^verbatim>\<open>sys.exit(app.exec())\<close>. The decorator
  \<^verbatim>\<open>handle_critical_errors\<close> is outside the sources; the outcome is how the body ends.
\<close>

definition main :: "env \<Rightarrow> world \<Rightarrow> outcome \<times> world" where
  "main E w =
     (case main_sync E w of
        (Inl x, w1) \<Rightarrow> (x, w1)
      | (Inr u, w1) \<Rightarrow> (SystemExit (exec_code E), app_exec E w1))"

section \<open>Observing the trace\<close>

text \<open>
  The stage of the startup sequence an event belongs to, by the call it records (for a
  log entry its category, for a dialog its title). Events of the Qt application object
  and of the event loop belong to no stage.
\<close>

datatype stage =
  LoggingInit | DataBootstrap | ResourceResolution | AuthInit | WindowConstruction
  | LoadingScreenDisplay | DeferredActivation

fun stage_rank :: "stage \<Rightarrow> nat" where
  "stage_rank LoggingInit = 0"
| "stage_rank DataBootstrap = 1"
| "stage_rank ResourceResolution = 2"
| "stage_rank AuthInit = 3"
| "stage_rank WindowConstruction = 4"
| "stage_rank LoadingScreenDisplay = 5"
| "stage_rank DeferredActivation = 6"

fun stage_of :: "event \<Rightarrow> stage option" where
  "stage_of CreateQApplication = None"
| "stage_of (InitLogBook f) = Some LoggingInit"
| "stage_of (Log u c m l) =
     (if c \<in> set [''Data Loading Error'', ''Data Creation'', ''Data Loading Fallback'']
      then Some DataBootstrap
      else if c \<in> set [''Resource Creation'', ''Resource Error'', ''Resource Warning'',
                         ''Resource Fallback'']
      then Some ResourceResolution
      else if c \<in> set [''Update Check Error'', ''Dashboard Initialization Error'',
                         ''Memory Monitoring Error'']
      then Some DeferredActivation
      else None)"
| "stage_of (LoadData p c) = Some DataBootstrap"
| "stage_of CreateDefaultData = Some DataBootstrap"
| "stage_of (AttemptFailed i e) = Some DataBootstrap"
| "stage_of (Delay i) = Some DataBootstrap"
| "stage_of (WarningDialog t c) =
     (if t = ''Data Loading Error'' then Some DataBootstrap
      else if t = ''Dashboard Error'' then Some DeferredActivation else None)"
| "stage_of (CriticalDialog t c) = (if t = ''Resource Error'' then Some ResourceResolution else None)"
| "stage_of (SetWindowIcon p) = Some ResourceResolution"
| "stage_of (Mkdir p) = Some ResourceResolution"
| "stage_of CreateAuthService = Some AuthInit"
| "stage_of CreateMainWindow = Some WindowConstruction"
| "stage_of (CreateSplashScreen g v l) = Some LoadingScreenDisplay"
| "stage_of SplashShow = Some LoadingScreenDisplay"
| "stage_of ConnectSplashClosed = Some LoadingScreenDisplay"
| "stage_of AppExec = None"
| "stage_of SplashClosedSignal = None"
| "stage_of (SlotRaised e) = None"
| "stage_of SetAuthService = Some DeferredActivation"
| "stage_of WindowShow = Some DeferredActivation"
| "stage_of CheckForUpdates = Some DeferredActivation"
| "stage_of CurrentText = Some DeferredActivation"
| "stage_of (UpdateDashboard p) = Some DeferredActivation"
| "stage_of (UpdateParkName p) = Some DeferredActivation"
| "stage_of (UpdateSelectedPark p) = Some DeferredActivation"
| "stage_of MonitorMemoryUsage = Some DeferredActivation"

definition grows :: "(event \<Rightarrow> bool) \<Rightarrow> world \<Rightarrow> world \<Rightarrow> bool" where
  "grows Q w w' \<longleftrightarrow> (\<exists>es. trace w' = trace w @ es \<and> list_all Q es)"

definition in_data :: "event \<Rightarrow> bool" where
  "in_data e \<longleftrightarrow> stage_of e = Some DataBootstrap"

definition in_resource :: "event \<Rightarrow> bool" where
  "in_resource e \<longleftrightarrow> stage_of e = Some ResourceResolution"

definition in_deferred :: "event \<Rightarrow> bool" where
  "in_deferred e \<longleftrightarrow> stage_of e = Some DeferredActivation"

definition ranks :: "event list \<Rightarrow> nat list" where
  "ranks es = map stage_rank (List.map_filter stage_of es)"

text \<open>\<open>staged k m es\<close>: every event of \<open>es\<close> has a stage, of rank \<open>k\<close> to \<open>m\<close>, and the stages only go up.\<close>

definition staged :: "nat \<Rightarrow> nat \<Rightarrow> event list \<Rightarrow> bool" where
  "staged k m es \<longleftrightarrow>
     sorted (ranks es) \<and>
     list_all (\<lambda>e. case stage_of e of None \<Rightarrow> False
                   | Some X \<Rightarrow> k \<le> stage_rank X \<and> stage_rank X \<le> m) es"

text \<open>The events a run from \<open>w\<close> to \<open>w'\<close> has appended.\<close>

definition emitted :: "world \<Rightarrow> world \<Rightarrow> event list" where
  "emitted w w' = drop (length (trace w)) (trace w')"

fun is_log_of :: "string \<Rightarrow> event \<Rightarrow> bool" where
  "is_log_of c (Log u c' m l) = (c' = c)"
| "is_log_of c e = False"

fun is_critical :: "event \<Rightarrow> bool" where
  "is_critical (CriticalDialog t c) = True"
| "is_critical e = False"

fun is_warning_dialog :: "event \<Rightarrow> bool" where
  "is_warning_dialog (WarningDialog t c) = True"
| "is_warning_dialog e = False"

text \<open>
  The first call of each of the three guarded tasks of \<^verbatim>\<open>on_splash_closed\<close> (the update
  check, the reading of the selected park, the memory probe), and what the handler
  appends before them.
\<close>

fun task_start :: "event \<Rightarrow> bool" where
  "task_start CheckForUpdates = True"
| "task_start CurrentText = True"
| "task_start MonitorMemoryUsage = True"
| "task_start e = False"

definition before_tasks :: "env \<Rightarrow> event list" where
  "before_tasks E = (if has_set_auth_service E then [SetAuthService] else []) @ [WindowShow]"

text \<open>What tasks 4 and 5 of the handler append to the trace.\<close>

definition later_tasks :: "env \<Rightarrow> event list" where
  "later_tasks E = trace (monitor_memory E (init_dashboard E init_world))"

text \<open>
  The stages in the order of the specification; the events of the synchronous part of
  \<^verbatim>\<open>main\<close>; and \<open>reached m es\<close>: the stages of \<open>es\<close> only go up and are exactly those
  of rank 0 to \<open>m\<close>.
\<close>

definition all_stages :: "stage list" where
  "all_stages = [LoggingInit, DataBootstrap, ResourceResolution, AuthInit, WindowConstruction,
                 LoadingScreenDisplay, DeferredActivation]"

definition sync_event :: "event \<Rightarrow> bool" where
  "sync_event e \<longleftrightarrow> e \<noteq> SplashClosedSignal \<and> stage_of e \<noteq> Some DeferredActivation"

definition reached :: "nat \<Rightarrow> event list \<Rightarrow> bool" where
  "reached m es \<longleftrightarrow> sorted (ranks es) \<and> set (ranks es) = {0..m}"

section \<open>Observing the retry wrapper\<close>

text \<open>
  To count the attempts of the wrapper, the wrapped operation is run with a record of what
  each invocation returned; the policy's logging and waiting leave the record alone.
\<close>

definition recorded ::
  "('s \<Rightarrow> (exn + 'a) \<times> 's) \<Rightarrow> 's \<times> (exn + 'a) list \<Rightarrow> (exn + 'a) \<times> ('s \<times> (exn + 'a) list)" where
  "recorded f = (\<lambda>(s, l). case f s of (r, s') \<Rightarrow> (r, (s', l @ [r])))"

definition lift_policy :: "'s retry_policy \<Rightarrow> ('s \<times> 'b) retry_policy" where
  "lift_policy P =
     \<lparr>max_attempts = max_attempts P, retryable = retryable P,
      log_attempt = (\<lambda>i e (s, l). (log_attempt P i e s, l)),
      delay = (\<lambda>i (s, l). (delay P i s, l))\<rparr>"

text \<open>An operation that fails twice and then returns, under a policy of three attempts.\<close>

definition flaky :: "nat \<Rightarrow> (exn + nat) \<times> nat" where
  "flaky s = (if s < 2 then (Inl (Exception ''busy''), Suc s) else (Inr s, Suc s))"

definition three_tries :: "nat retry_policy" where
  "three_tries = \<lparr>max_attempts = 3, retryable = (\<lambda>e. True),
                  log_attempt = (\<lambda>i e s. s), delay = (\<lambda>i s. s)\<rparr>"

section \<open>Concrete environments\<close>

text \<open>Every resource present and every collaborator call returning.\<close>

definition env_ok :: env where
  "env_ok =
     \<lparr>username = ''pierre'', log_file = ''logs/app.log'', data_file_path = ''data/turbines.csv'',
      icon_path = ''icons/logo_app.ico'', logo_path = ''icons/splash_icon.svg'',
      fallback_logo_path = ''icons/fallback_logo.svg'', gif_dir = ''gifs'',
      retry_max_attempts = 3, retry_retryable = (\<lambda>e. True),
      load_data_exc = (\<lambda>n. None), create_default_data_exc = (\<lambda>n. None),
      gif_is_dir = True, mkdir_exc = None, logo_exists = True, fallback_logo_exists = True,
      auth_service_exc = None, main_window_exc = None, splash_screen_exc = None,
      splash_show_exc = None, splash_closes = True, exec_code = 0,
      has_set_auth_service = True, set_auth_service_exc = None, window_show_exc = None,
      check_for_updates_exc = None, current_text = Inr ''Park A'',
      update_dashboard_exc = None, has_import_raw_data_page = True,
      update_park_name_exc = None, update_selected_park_exc = None,
      monitor_memory_exc = None\<rparr>"

text \<open>The data file is missing.\<close>

definition env_missing_file :: env where
  "env_missing_file =
     env_ok\<lparr>load_data_exc := (\<lambda>n. Some (Exception ''No such file or directory''))\<rparr>"

text \<open>The data file is there and cannot be read.\<close>

definition env_unreadable :: env where
  "env_unreadable = env_ok\<lparr>load_data_exc := (\<lambda>n. Some (Exception ''Permission denied''))\<rparr>"

text \<open>The data file is missing and the first creation of default data fails.\<close>

definition env_create_fails_once :: env where
  "env_create_fails_once =
     env_missing_file\<lparr>retry_max_attempts := 1,
       create_default_data_exc := (\<lambda>n. if n = 0 then Some (Exception ''disk full'') else None)\<rparr>"

text \<open>The data file is missing and every creation of default data fails.\<close>

definition env_create_fails :: env where
  "env_create_fails =
     env_missing_file\<lparr>create_default_data_exc := (\<lambda>n. Some (Exception ''disk full''))\<rparr>"

text \<open>The GIF directory is missing; it can be created, or not.\<close>

definition env_no_gif_dir :: env where
  "env_no_gif_dir = env_ok\<lparr>gif_is_dir := False\<rparr>"

definition env_gif_denied :: env where
  "env_gif_denied = env_ok\<lparr>gif_is_dir := False, mkdir_exc := Some (Exception ''Permission denied'')\<rparr>"

text \<open>The logo is missing, with and without the fallback logo.\<close>

definition env_no_logo :: env where
  "env_no_logo = env_ok\<lparr>logo_exists := False\<rparr>"

definition env_no_logos :: env where
  "env_no_logos = env_ok\<lparr>logo_exists := False, fallback_logo_exists := False\<rparr>"

text \<open>Failures in the handler: showing the window, the update check, the dashboard.\<close>

definition env_show_fails :: env where
  "env_show_fails = env_ok\<lparr>window_show_exc := Some (Exception ''no display'')\<rparr>"

definition env_update_fails :: env where
  "env_update_fails = env_ok\<lparr>check_for_updates_exc := Some (Exception ''offline'')\<rparr>"

definition env_dashboard_fails :: env where
  "env_dashboard_fails = env_ok\<lparr>update_dashboard_exc := Some (Exception ''no data'')\<rparr>"

definition env_no_park :: env where
  "env_no_park = env_ok\<lparr>current_text := Inr []\<rparr>"

section \<open>What each part of the sequence appends to the trace\<close>

lemmas call_simps = call_def emit_def log_event_def

lemmas model_defs =
  main_def main_sync_def resources_and_splash_def logo_and_splash_def show_splash_def
  init_logging_def app_exec_def on_splash_closed_def monitor_memory_def init_dashboard_def
  dashboard_updates_def update_check_def resolve_logo_def resolve_gif_directory_def
  bootstrap_data_def create_empty_data_fallback_def create_empty_data_fallback_impl_def
  load_data_def load_data_body_def file_operation_retry_def policy_def
  WindFarmDataManager_load_data_def WindFarmDataManager_create_default_data_def
  call_def emit_def log_event_def init_world_def Let_def

lemma denied_not_missing: "\<not> sublist ''No such file or directory'' ''Permission denied''"
  by (simp add: sublist_Cons_right)

lemma missing_is_missing: "sublist ''No such file or directory'' ''No such file or directory''"
  by simp



lemma grows_refl: "grows Q w w"
  by (simp add: grows_def)

lemma grows_trans: "grows Q w w1 \<Longrightarrow> grows Q w1 w2 \<Longrightarrow> grows Q w w2"
  by (auto simp: grows_def)

lemma grows_emit: "Q e \<Longrightarrow> grows Q w (emit e w)"
  by (simp add: grows_def emit_def)

lemma grows_emit_after: "grows Q w w1 \<Longrightarrow> Q e \<Longrightarrow> grows Q w (emit e w1)"
  by (auto simp: grows_def emit_def)

lemma grows_weaken: "grows Q w w' \<Longrightarrow> (\<And>e. Q e \<Longrightarrow> R e) \<Longrightarrow> grows R w w'"
  by (auto simp: grows_def list_all_iff)

lemma grows_load: "Q (LoadData p c) \<Longrightarrow> grows Q w (snd (WindFarmDataManager_load_data E p c w))"
  by (simp add: WindFarmDataManager_load_data_def grows_def emit_def Let_def split: option.split)

lemma grows_create: "Q CreateDefaultData \<Longrightarrow> grows Q w (snd (WindFarmDataManager_create_default_data E w))"
  by (simp add: WindFarmDataManager_create_default_data_def grows_def emit_def Let_def split: option.split)

lemma grows_call: "Q ev \<Longrightarrow> grows Q w (snd (call ev x w))"
  by (simp add: call_def grows_def emit_def split: option.split)

lemma grows_attempts:
  assumes f: "\<And>s. grows Q s (snd (f s))"
    and a: "\<And>i e. Q (AttemptFailed i e)" and d: "\<And>i. Q (Delay i)"
  shows "grows Q s (snd (attempts (policy E) i k f s))"
proof (induction k arbitrary: i s)
  case 0
  show ?case by (simp add: grows_refl)
next
  case (Suc k)
  obtain r s1 where fs: "f s = (r, s1)" by (cases "f s")
  have g1: "grows Q s s1" using f [of s] fs by simp
  show ?case
  proof (cases r)
    case (Inr v)
    then show ?thesis using fs g1 by simp
  next
    case (Inl e)
    have g2: "grows Q s (emit (AttemptFailed i e) s1)"
      using g1 a by (rule grows_emit_after)
    have g3: "grows Q s (emit (Delay i) (emit (AttemptFailed i e) s1))"
      using g2 d by (rule grows_emit_after)
    show ?thesis
      using fs Inl g2 grows_trans [OF g3 Suc.IH]
      by (simp add: policy_def Let_def)
  qed
qed

lemma grows_load_data_body: "grows in_data w (snd (load_data_body E p c w))"
proof -
  let ?c = "case c of Some c \<Rightarrow> (if c \<noteq> 0 then Some c else None) | None \<Rightarrow> None"
  obtain r w1 where l: "WindFarmDataManager_load_data E p ?c w = (r, w1)"
    by (cases "WindFarmDataManager_load_data E p ?c w")
  have "grows in_data w (snd (WindFarmDataManager_load_data E p ?c w))"
    by (rule grows_load) (simp add: in_data_def)
  then have g1: "grows in_data w w1"
    by (simp only: l snd_conv)
  show ?thesis
  proof (cases r)
    case (Inr u)
    then show ?thesis using l g1 by (simp add: load_data_body_def)
  next
    case (Inl e)
    let ?w2 = "log_event (username E) ''Data Loading Error'' (''Error loading data: '' @ str e) error w1"
    let ?w3 = "log_event (username E) ''Data Creation'' ''Creating default data file...'' info ?w2"
    have g2: "grows in_data w ?w2"
      unfolding log_event_def using g1 by (rule grows_emit_after) (simp add: in_data_def)
    have g3: "grows in_data w ?w3"
      unfolding log_event_def [of _ "''Data Creation''"] using g2 by (rule grows_emit_after) (simp add: in_data_def)
    have g4: "grows in_data w (snd (WindFarmDataManager_create_default_data E ?w3))"
      using g3 by (rule grows_trans) (rule grows_create, simp add: in_data_def)
    show ?thesis
      using l Inl g2 g4
      by (auto simp add: load_data_body_def Let_def split: prod.splits sum.splits)
  qed
qed


lemma grows_fallback_impl: "grows in_data w (snd (create_empty_data_fallback_impl E w))"
proof -
  let ?w1 = "log_event (username E) ''Data Loading Fallback''
                 ''Creating empty default data to allow application to start'' warning w"
  have g1: "grows in_data w ?w1"
    unfolding log_event_def by (rule grows_emit) (simp add: in_data_def)
  obtain r w2 where c: "WindFarmDataManager_create_default_data E ?w1 = (r, w2)"
    by (cases "WindFarmDataManager_create_default_data E ?w1")
  have "grows in_data ?w1 (snd (WindFarmDataManager_create_default_data E ?w1))"
    by (rule grows_create) (simp add: in_data_def)
  then have g2: "grows in_data w w2"
    using g1 by (simp only: c snd_conv grows_trans)
  have g3: "grows in_data w (emit (WarningDialog ''Data Loading Error'' fallback_message) w2)"
    using g2 by (rule grows_emit_after) (simp add: in_data_def)
  show ?thesis
    using c g2 g3 by (cases r) (simp_all add: create_empty_data_fallback_impl_def Let_def)
qed

lemma grows_load_data: "grows in_data w (snd (load_data E p c w))"
  unfolding load_data_def file_operation_retry_def
  by (rule grows_attempts) (simp_all add: grows_load_data_body in_data_def)

lemma grows_fallback: "grows in_data w (snd (create_empty_data_fallback E w))"
  unfolding create_empty_data_fallback_def file_operation_retry_def
  by (rule grows_attempts) (simp_all add: grows_fallback_impl in_data_def)

lemma grows_bootstrap: "grows in_data w (snd (bootstrap_data E w))"
proof -
  obtain r w1 where l: "load_data E (data_file_path E) None w = (r, w1)"
    by (cases "load_data E (data_file_path E) None w")
  have g1: "grows in_data w w1"
    using grows_load_data [of w E "data_file_path E" None] by (simp only: l snd_conv)
  obtain r' w2 where f: "create_empty_data_fallback E w1 = (r', w2)"
    by (cases "create_empty_data_fallback E w1")
  have g2: "grows in_data w w2"
    using grows_fallback [of w1 E] g1 by (simp only: f snd_conv grows_trans)
  show ?thesis
    using l f g1 g2 by (cases r; cases r') (simp_all add: bootstrap_data_def)
qed

lemma grows_gif: "grows in_resource w (snd (resolve_gif_directory E w))"
  by (simp add: resolve_gif_directory_def grows_def call_simps Let_def in_resource_def
      split: option.split)

lemma grows_logo: "grows in_resource w (snd (resolve_logo E w))"
  by (simp add: resolve_logo_def grows_def call_simps Let_def in_resource_def)

lemma grows_update_check: "grows in_deferred w (update_check E w)"
  by (simp add: update_check_def grows_def call_simps in_deferred_def split: option.split)

lemma grows_dashboard_updates: "grows in_deferred w (snd (dashboard_updates E w))"
  by (simp add: dashboard_updates_def grows_def call_simps in_deferred_def Let_def
      split: option.split sum.split)

lemma grows_init_dashboard: "grows in_deferred w (init_dashboard E w)"
proof -
  obtain r w1 where d: "dashboard_updates E w = (r, w1)" by (cases "dashboard_updates E w")
  have g1: "grows in_deferred w w1"
    using grows_dashboard_updates [of w E] by (simp only: d snd_conv)
  show ?thesis
  proof (cases r)
    case (Inr u)
    then show ?thesis using d g1 by (simp add: init_dashboard_def)
  next
    case (Inl e)
    have "grows in_deferred w
        (emit (Log (username E) ''Dashboard Initialization Error''
               (''Error initializing dashboard: '' @ str e) error) w1)"
      using g1 by (rule grows_emit_after) (simp add: in_deferred_def)
    then have "grows in_deferred w
        (emit (WarningDialog ''Dashboard Error'' dashboard_error_content)
           (emit (Log (username E) ''Dashboard Initialization Error''
               (''Error initializing dashboard: '' @ str e) error) w1))"
      by (rule grows_emit_after) (simp add: in_deferred_def)
    then show ?thesis using d Inl by (simp add: init_dashboard_def log_event_def)
  qed
qed

lemma grows_monitor_memory: "grows in_deferred w (monitor_memory E w)"
  by (simp add: monitor_memory_def grows_def call_simps in_deferred_def split: option.split)

lemma grows_tasks: "grows in_deferred w (monitor_memory E (init_dashboard E (update_check E w)))"
  by (blast intro: grows_trans grows_update_check grows_init_dashboard grows_monitor_memory)

lemma grows_on_splash_closed: "grows in_deferred w (snd (on_splash_closed E w))"
proof -
  have a: "grows in_deferred w (emit SetAuthService w)"
    by (rule grows_emit) (simp add: in_deferred_def)
  have b: "\<And>v. grows in_deferred w v \<Longrightarrow> grows in_deferred w (emit WindowShow v)"
    by (rule grows_emit_after) (simp_all add: in_deferred_def)
  have c: "\<And>v. grows in_deferred w v \<Longrightarrow>
      grows in_deferred w (monitor_memory E (init_dashboard E (update_check E v)))"
    by (blast intro: grows_trans grows_tasks)
  show ?thesis
    using a b [OF a] b [OF grows_refl] c [OF b [OF a]] c [OF b [OF grows_refl]]
    by (simp add: on_splash_closed_def call_def split: option.split)
qed


lemma grows_filter_none:
  "grows Q w w' \<Longrightarrow> (\<And>e. Q e \<Longrightarrow> \<not> R e) \<Longrightarrow> filter R (trace w') = filter R (trace w)"
  by (auto simp: grows_def list_all_iff filter_empty_conv)

lemma grows_show_splash:
  "grows (\<lambda>e. stage_of e \<in> {Some AuthInit, Some WindowConstruction, Some LoadingScreenDisplay})
     w (snd (show_splash E p w))"
  by (simp add: show_splash_def grows_def call_simps split: option.split)

lemma grows_app_exec:
  "grows (\<lambda>e. stage_of e \<in> {None, Some DeferredActivation}) w (app_exec E w)"
proof -
  let ?Q = "\<lambda>e. stage_of e \<in> {None, Some DeferredActivation}"
  let ?w2 = "emit SplashClosedSignal (emit AppExec w)"
  have g1: "grows ?Q w (emit AppExec w)" by (rule grows_emit) simp
  then have g2: "grows ?Q w ?w2" by (rule grows_emit_after) simp
  obtain r w3 where h: "on_splash_closed E ?w2 = (r, w3)" by (cases "on_splash_closed E ?w2")
  have "grows in_deferred ?w2 (snd (on_splash_closed E ?w2))" by (rule grows_on_splash_closed)
  then have "grows ?Q ?w2 w3"
    unfolding h snd_conv by (rule grows_weaken) (simp add: in_deferred_def)
  with g2 have g3: "grows ?Q w w3" by (rule grows_trans)
  have g4: "\<And>e. grows ?Q w (emit (SlotRaised e) w3)"
    using g3 by (rule grows_emit_after) simp
  show ?thesis
    using g1 g3 g4 h by (cases r) (simp_all add: app_exec_def Let_def)
qed

lemma grows_logo_and_splash:
  "grows (\<lambda>e. stage_of e \<in> {Some ResourceResolution, Some AuthInit, Some WindowConstruction,
                              Some LoadingScreenDisplay}) w (snd (logo_and_splash E w))"
proof -
  let ?Q = "\<lambda>e. stage_of e \<in> {Some ResourceResolution, Some AuthInit, Some WindowConstruction,
                              Some LoadingScreenDisplay}"
  obtain r w1 where l: "resolve_logo E w = (r, w1)" by (cases "resolve_logo E w")
  have "grows in_resource w (snd (resolve_logo E w))" by (rule grows_logo)
  then have g1: "grows ?Q w w1"
    unfolding l snd_conv by (rule grows_weaken) (simp add: in_resource_def)
  have "\<And>p. grows ?Q w1 (snd (show_splash E p w1))"
    by (rule grows_weaken [OF grows_show_splash]) auto
  with g1 have g2: "\<And>p. grows ?Q w (snd (show_splash E p w1))" by (rule grows_trans)
  show ?thesis using l g1 g2 by (cases r) (simp_all add: logo_and_splash_def)
qed

lemma creation_log_stage: "is_log_of ''Resource Creation'' e \<Longrightarrow> stage_of e = Some ResourceResolution"
  by (cases e) simp_all

lemma critical_stage: "is_critical e \<Longrightarrow> stage_of e \<in> {None, Some ResourceResolution}"
  by (cases e) simp_all

lemma logo_and_splash_no_creation:
  "filter (is_log_of ''Resource Creation'') (trace (snd (logo_and_splash E w))) =
   filter (is_log_of ''Resource Creation'') (trace w)"
  by (simp add: logo_and_splash_def resolve_logo_def show_splash_def call_simps Let_def
      split: option.split)

lemma app_exec_no_creation:
  "filter (is_log_of ''Resource Creation'') (trace (app_exec E w)) =
   filter (is_log_of ''Resource Creation'') (trace w)"
  by (rule grows_filter_none [OF grows_app_exec]) (auto dest: creation_log_stage)

lemma trace_init_logging:
  "trace (init_logging E w) = trace w @ [CreateQApplication, InitLogBook (log_file E)]"
  by (simp add: init_logging_def emit_def)

lemma gif_content_dir: "sublist d (gif_error_content d e)"
  unfolding gif_error_content_def by (rule sublist_appendI)

lemma gif_content_err: "sublist (str e) (gif_error_content d e)"
proof -
  have "gif_error_content d e =
      (''GIF directory not found and could not be created: '' @ d @ nl2 @ ''Error: '') @ str e @
      (nl2 @ ''The application will now exit.'')"
    unfolding gif_error_content_def by (simp only: append_assoc)
  then show ?thesis by (simp only: sublist_appendI)
qed

lemma gif_created:
  "\<not> gif_is_dir E \<Longrightarrow> mkdir_exc E = None \<Longrightarrow>
     resolve_gif_directory E w =
       (Inr (), w\<lparr>trace := trace w @
          [Mkdir (gif_dir E),
           Log (username E) ''Resource Creation''
             (''Created missing GIF directory: '' @ gif_dir E) info]\<rparr>)"
  by (simp add: resolve_gif_directory_def call_simps)

lemma gif_not_created:
  "\<not> gif_is_dir E \<Longrightarrow> mkdir_exc E = Some e \<Longrightarrow>
     resolve_gif_directory E w =
       (Inl (SystemExit 1), w\<lparr>trace := trace w @
          [Mkdir (gif_dir E),
           Log (username E) ''Resource Error''
             (''GIF directory not found and could not be created: '' @ gif_dir E) error,
           Log (username E) ''Resource Error'' (''Error: '' @ str e) error,
           CriticalDialog ''Resource Error'' (gif_error_content (gif_dir E) e)]\<rparr>)"
  by (simp add: resolve_gif_directory_def call_simps Let_def)

lemma bootstrap_filter:
  assumes "bootstrap_data E (init_logging E init_world) = (r, w1)"
    and "\<And>e. stage_of e = Some DataBootstrap \<Longrightarrow> \<not> R e"
    and "\<not> R CreateQApplication" and "\<And>f. \<not> R (InitLogBook f)"
  shows "filter R (trace w1) = []"
proof -
  have "grows in_data (init_logging E init_world) (snd (bootstrap_data E (init_logging E init_world)))"
    by (rule grows_bootstrap)
  then have "filter R (trace w1) = filter R (trace (init_logging E init_world))"
    unfolding assms(1) snd_conv by (rule grows_filter_none) (simp add: in_data_def assms(2))
  then show ?thesis
    using assms(3,4) by (simp add: trace_init_logging init_world_def)
qed

section \<open>Data bootstrap: a missing data file\<close>

lemma attempts_first_returns:
  "0 < k \<Longrightarrow> f s = (Inr v, s1) \<Longrightarrow> attempts P i k f s = (Inr v, s1)"
  by (cases k) simp_all

lemma missing_file_body:
  assumes "load_data_exc E (loads w) = Some e"
    and "sublist ''No such file or directory'' (str e)"
    and "create_default_data_exc E (creates w) = None"
  shows "load_data_body E p None w =
     (Inr True,
      w\<lparr>trace := trace w @
         [LoadData p None,
          Log (username E) ''Data Loading Error'' (''Error loading data: '' @ str e) error,
          Log (username E) ''Data Creation'' ''Creating default data file...'' info,
          CreateDefaultData],
        data_model := Some DefaultData, loads := Suc (loads w), creates := Suc (creates w)\<rparr>)"
  using assms
  by (simp add: load_data_body_def WindFarmDataManager_load_data_def
      WindFarmDataManager_create_default_data_def call_simps Let_def)

lemma unreadable_file_body:
  assumes "load_data_exc E (loads w) = Some e"
    and "\<not> sublist ''No such file or directory'' (str e)"
  shows "load_data_body E p None w =
     (Inr False,
      w\<lparr>trace := trace w @
         [LoadData p None,
          Log (username E) ''Data Loading Error'' (''Error loading data: '' @ str e) error],
        loads := Suc (loads w)\<rparr>)"
  using assms
  by (simp add: load_data_body_def WindFarmDataManager_load_data_def call_simps Let_def)

lemma data_model_resources_and_splash:
  "data_model (snd (resources_and_splash E w)) = data_model w"
  by (simp add: resources_and_splash_def logo_and_splash_def resolve_gif_directory_def
      resolve_logo_def show_splash_def call_simps Let_def split: option.split)

lemma data_model_update_check: "data_model (update_check E w) = data_model w"
  by (simp add: update_check_def call_simps split: option.split)

lemma data_model_init_dashboard: "data_model (init_dashboard E w) = data_model w"
  by (simp add: init_dashboard_def dashboard_updates_def call_simps Let_def
      split: option.split sum.split)

lemma data_model_monitor_memory: "data_model (monitor_memory E w) = data_model w"
  by (simp add: monitor_memory_def call_simps split: option.split)

lemma data_model_on_splash_closed: "data_model (snd (on_splash_closed E w)) = data_model w"
  by (simp add: on_splash_closed_def data_model_update_check data_model_init_dashboard
      data_model_monitor_memory call_def emit_def split: option.split)

lemma data_model_app_exec: "data_model (app_exec E w) = data_model w"
proof -
  obtain r w1 where h: "on_splash_closed E (emit SplashClosedSignal (emit AppExec w)) = (r, w1)"
    by (cases "on_splash_closed E (emit SplashClosedSignal (emit AppExec w))")
  have "data_model w1 = data_model w"
    using data_model_on_splash_closed [of E "emit SplashClosedSignal (emit AppExec w)"]
    by (simp only: h snd_conv) (simp add: emit_def)
  then show ?thesis
    using h by (cases r) (simp_all add: app_exec_def Let_def emit_def)
qed

lemma data_model_after_bootstrap:
  "main_sync E w = resources_and_splash E w1 \<Longrightarrow> data_model (snd (main E w)) = data_model w1"
proof -
  assume m: "main_sync E w = resources_and_splash E w1"
  obtain r w2 where rs: "resources_and_splash E w1 = (r, w2)"
    by (cases "resources_and_splash E w1")
  have "data_model w2 = data_model w1"
    using data_model_resources_and_splash [of E w1] by (simp add: rs)
  then show ?thesis
    using m rs by (cases r) (simp_all add: main_def data_model_app_exec)
qed

lemma missing_file_body_raises:
  assumes "load_data_exc E (loads w) = Some e"
    and "sublist ''No such file or directory'' (str e)"
    and "create_default_data_exc E (creates w) = Some e'"
  shows "load_data_body E p None w =
     (Inl e',
      w\<lparr>trace := trace w @
         [LoadData p None,
          Log (username E) ''Data Loading Error'' (''Error loading data: '' @ str e) error,
          Log (username E) ''Data Creation'' ''Creating default data file...'' info,
          CreateDefaultData],
        loads := Suc (loads w), creates := Suc (creates w)\<rparr>)"
  using assms
  by (simp add: load_data_body_def WindFarmDataManager_load_data_def
      WindFarmDataManager_create_default_data_def call_simps Let_def)

lemma missing_file_body_emits:
  assumes "load_data_exc E (loads w) = Some e"
    and "sublist ''No such file or directory'' (str e)"
  shows "emitted w (snd (load_data_body E p None w)) =
         [LoadData p None,
          Log (username E) ''Data Loading Error'' (''Error loading data: '' @ str e) error,
          Log (username E) ''Data Creation'' ''Creating default data file...'' info,
          CreateDefaultData]"
proof (cases "create_default_data_exc E (creates w)")
  case None
  show ?thesis
    by (simp only: missing_file_body [OF assms None] snd_conv) (simp add: emitted_def)
next
  case (Some e')
  show ?thesis
    by (simp only: missing_file_body_raises [OF assms Some] snd_conv) (simp add: emitted_def)
qed

lemma missing_file_returns:
  assumes n: "0 < retry_max_attempts E"
    and missing: "load_data_exc E (loads w) = Some e"
                 "sublist ''No such file or directory'' (str e)"
    and creatable: "create_default_data_exc E (creates w) = None"
  shows "load_data E p None w =
           (Inr True,
            w\<lparr>trace := trace w @
               [LoadData p None,
                Log (username E) ''Data Loading Error'' (''Error loading data: '' @ str e) error,
                Log (username E) ''Data Creation'' ''Creating default data file...'' info,
                CreateDefaultData],
              data_model := Some DefaultData, loads := Suc (loads w),
              creates := Suc (creates w)\<rparr>) \<and>
         main_sync E w =
           resources_and_splash E
             (w\<lparr>trace := trace w @
                [CreateQApplication, InitLogBook (log_file E),
                 LoadData (data_file_path E) None,
                 Log (username E) ''Data Loading Error'' (''Error loading data: '' @ str e) error,
                 Log (username E) ''Data Creation'' ''Creating default data file...'' info,
                 CreateDefaultData],
               data_model := Some DefaultData, loads := Suc (loads w),
               creates := Suc (creates w)\<rparr>) \<and>
         data_model (snd (main E w)) = Some DefaultData"
proof -
  have l: "load_data E p None w =
           (Inr True,
            w\<lparr>trace := trace w @
               [LoadData p None,
                Log (username E) ''Data Loading Error'' (''Error loading data: '' @ str e) error,
                Log (username E) ''Data Creation'' ''Creating default data file...'' info,
                CreateDefaultData],
              data_model := Some DefaultData, loads := Suc (loads w),
              creates := Suc (creates w)\<rparr>)"
    if "load_data_exc E (loads w) = Some e" "create_default_data_exc E (creates w) = None"
    for p w
    unfolding load_data_def file_operation_retry_def
    using n missing_file_body [OF that(1) missing(2) that(2)]
    by (simp add: attempts_first_returns policy_def)
  have m: "main_sync E w =
           resources_and_splash E
             (w\<lparr>trace := trace w @
                [CreateQApplication, InitLogBook (log_file E),
                 LoadData (data_file_path E) None,
                 Log (username E) ''Data Loading Error'' (''Error loading data: '' @ str e) error,
                 Log (username E) ''Data Creation'' ''Creating default data file...'' info,
                 CreateDefaultData],
               data_model := Some DefaultData, loads := Suc (loads w),
               creates := Suc (creates w)\<rparr>)"
    using l [of "init_logging E w" "data_file_path E"] missing(1) creatable
    by (simp add: main_sync_def bootstrap_data_def init_logging_def emit_def)
  show ?thesis
    using l [OF missing(1) creatable] m data_model_after_bootstrap [OF m] by simp
qed

text \<open>
  Claim C2, as stated, on the run where the data file is missing and
  \<^verbatim>\<open>create_default_data\<close> raises: \<^verbatim>\<open>load_data\<close> does not return success; the
  exception leaves it, the wrapper retries (three loads), and \<^verbatim>\<open>main\<close> ends with the
  failure of the fallback.
\<close>

theorem missing_data_file_run:
  "fst (load_data env_create_fails ''data/turbines.csv'' None init_world) =
     Inl (TerminalFailure (Some (Exception ''disk full''))) \<and>
   loads (snd (load_data env_create_fails ''data/turbines.csv'' None init_world)) = 3 \<and>
   fst (main env_create_fails init_world) =
     UncaughtTerminal (TerminalFailure (Some (Exception ''disk full'')))"
  by (simp add: env_create_fails_def env_missing_file_def env_ok_def model_defs eval_nat_numeral)

text \<open>
  Claim C2, amended. When the load fails with a message that contains "No such file or
  directory" (and the wrapper makes at least one attempt): \<^verbatim>\<open>load_data\<close> calls the
  data manager, logs one error-level event, then the info-level event "Creating default
  data file...", and calls \<^verbatim>\<open>create_default_data\<close>. When that call returns,
  \<^verbatim>\<open>load_data\<close> returns \<^verbatim>\<open>True\<close> with no retry, \<^verbatim>\<open>main\<close> goes on to the resources,
  and the data model is the default dataset to the end of the run. When that call
  raises, its exception leaves the body of \<^verbatim>\<open>load_data\<close>.
\<close>

theorem missing_data_file:
  assumes n: "0 < retry_max_attempts E"
    and missing: "load_data_exc E (loads w) = Some e"
                 "sublist ''No such file or directory'' (str e)"
  shows "emitted w (snd (load_data_body E p None w)) =
           [LoadData p None,
            Log (username E) ''Data Loading Error'' (''Error loading data: '' @ str e) error,
            Log (username E) ''Data Creation'' ''Creating default data file...'' info,
            CreateDefaultData] \<and>
         (create_default_data_exc E (creates w) = None \<longrightarrow>
            load_data E p None w =
              (Inr True,
               w\<lparr>trace := trace w @
                  [LoadData p None,
                   Log (username E) ''Data Loading Error'' (''Error loading data: '' @ str e) error,
                   Log (username E) ''Data Creation'' ''Creating default data file...'' info,
                   CreateDefaultData],
                 data_model := Some DefaultData, loads := Suc (loads w),
                 creates := Suc (creates w)\<rparr>) \<and>
            main_sync E w =
              resources_and_splash E
                (w\<lparr>trace := trace w @
                   [CreateQApplication, InitLogBook (log_file E),
                    LoadData (data_file_path E) None,
                    Log (username E) ''Data Loading Error'' (''Error loading data: '' @ str e) error,
                    Log (username E) ''Data Creation'' ''Creating default data file...'' info,
                    CreateDefaultData],
                  data_model := Some DefaultData, loads := Suc (loads w),
                  creates := Suc (creates w)\<rparr>) \<and>
            data_model (snd (main E w)) = Some DefaultData) \<and>
         (\<forall>e'. create_default_data_exc E (creates w) = Some e' \<longrightarrow>
            load_data_body E p None w =
              (Inl e',
               w\<lparr>trace := trace w @
                  [LoadData p None,
                   Log (username E) ''Data Loading Error'' (''Error loading data: '' @ str e) error,
                   Log (username E) ''Data Creation'' ''Creating default data file...'' info,
                   CreateDefaultData],
                 loads := Suc (loads w), creates := Suc (creates w)\<rparr>))"
  using missing_file_body_emits [OF missing] missing_file_returns [OF n missing]
    missing_file_body_raises [OF missing]
  by blast

theorem missing_data_file_witness:
  "0 < retry_max_attempts env_missing_file \<and>
   load_data_exc env_missing_file (loads init_world) = Some (Exception ''No such file or directory'') \<and>
   sublist ''No such file or directory'' (str (Exception ''No such file or directory'')) \<and>
   create_default_data_exc env_missing_file (creates init_world) = None \<and>
   load_data env_missing_file ''data/turbines.csv'' None init_world =
     (Inr True,
      \<lparr>trace =
         [LoadData ''data/turbines.csv'' None,
          Log ''pierre'' ''Data Loading Error''
            ''Error loading data: No such file or directory'' error,
          Log ''pierre'' ''Data Creation'' ''Creating default data file...'' info,
          CreateDefaultData],
        data_model = Some DefaultData, loads = 1, creates = 1\<rparr>) \<and>
   data_model (snd (main env_missing_file init_world)) = Some DefaultData \<and>
   0 < retry_max_attempts env_create_fails \<and>
   load_data_exc env_create_fails (loads init_world) = Some (Exception ''No such file or directory'') \<and>
   create_default_data_exc env_create_fails (creates init_world) = Some (Exception ''disk full'') \<and>
   fst (load_data_body env_create_fails ''data/turbines.csv'' None init_world) =
     Inl (Exception ''disk full'')"
proof -
  have a: "0 < retry_max_attempts env_missing_file"
    and b: "load_data_exc env_missing_file (loads init_world) =
              Some (Exception ''No such file or directory'')"
    and c: "sublist ''No such file or directory'' (str (Exception ''No such file or directory''))"
    and d: "create_default_data_exc env_missing_file (creates init_world) = None"
    by (simp_all add: env_missing_file_def env_ok_def)
  have a': "0 < retry_max_attempts env_create_fails"
    and b': "load_data_exc env_create_fails (loads init_world) =
              Some (Exception ''No such file or directory'')"
    and d': "create_default_data_exc env_create_fails (creates init_world) =
              Some (Exception ''disk full'')"
    by (simp_all add: env_create_fails_def env_missing_file_def env_ok_def)
  have e: "username env_missing_file = ''pierre''"
    by (simp add: env_missing_file_def env_ok_def)
  show ?thesis
    using missing_data_file [OF a b c, of "''data/turbines.csv''"]
      missing_data_file [OF a' b' c, of "''data/turbines.csv''"] a b c d a' b' d'
    by (simp add: e init_world_def)
qed

section \<open>Resource resolution: the GIF directory\<close>

text \<open>
  Claim C4. When the sequence reaches the check of the GIF directory and the directory is
  absent: if it can be created, the sequence creates it, goes on with the logo, and the
  whole run logs exactly one creation event, at level info; if the creation raises, the
  run logs the error, shows exactly one critical dialog, whose content contains the
  directory path and the error string, and ends with \<^verbatim>\<open>sys.exit(1)\<close>.
\<close>

theorem gif_directory_absent:
  assumes boot: "bootstrap_data E (init_logging E init_world) = (Inr (), w1)"
    and absent: "\<not> gif_is_dir E"
  shows "(mkdir_exc E = None \<longrightarrow>
            main_sync E init_world =
              logo_and_splash E (w1\<lparr>trace := trace w1 @
                 [SetWindowIcon (icon_path E), Mkdir (gif_dir E),
                  Log (username E) ''Resource Creation''
                    (''Created missing GIF directory: '' @ gif_dir E) info]\<rparr>) \<and>
            filter (is_log_of ''Resource Creation'') (trace (snd (main E init_world))) =
              [Log (username E) ''Resource Creation''
                 (''Created missing GIF directory: '' @ gif_dir E) info]) \<and>
         (\<forall>e. mkdir_exc E = Some e \<longrightarrow>
            main E init_world =
              (SystemExit 1, w1\<lparr>trace := trace w1 @
                 [SetWindowIcon (icon_path E), Mkdir (gif_dir E),
                  Log (username E) ''Resource Error''
                    (''GIF directory not found and could not be created: '' @ gif_dir E) error,
                  Log (username E) ''Resource Error'' (''Error: '' @ str e) error,
                  CriticalDialog ''Resource Error'' (gif_error_content (gif_dir E) e)]\<rparr>) \<and>
            filter is_critical (trace (snd (main E init_world))) =
              [CriticalDialog ''Resource Error'' (gif_error_content (gif_dir E) e)] \<and>
            sublist (gif_dir E) (gif_error_content (gif_dir E) e) \<and>
            sublist (str e) (gif_error_content (gif_dir E) e))"
proof (intro conjI impI allI)
  let ?w2 = "w1\<lparr>trace := trace w1 @
                 [SetWindowIcon (icon_path E), Mkdir (gif_dir E),
                  Log (username E) ''Resource Creation''
                    (''Created missing GIF directory: '' @ gif_dir E) info]\<rparr>"
  assume ok: "mkdir_exc E = None"
  show sync: "main_sync E init_world = logo_and_splash E ?w2"
    using boot gif_created [OF absent ok]
    by (simp add: main_sync_def resources_and_splash_def emit_def)
  have f1: "filter (is_log_of ''Resource Creation'') (trace w1) = []"
    using boot by (rule bootstrap_filter) (auto dest: creation_log_stage)
  obtain r w3 where ls: "logo_and_splash E ?w2 = (r, w3)" by (cases "logo_and_splash E ?w2")
  have f3: "filter (is_log_of ''Resource Creation'') (trace w3) =
            filter (is_log_of ''Resource Creation'') (trace ?w2)"
    using logo_and_splash_no_creation [of E ?w2] by (simp only: ls snd_conv)
  have "trace (snd (main E init_world)) = trace w3 \<or>
        trace (snd (main E init_world)) = trace (app_exec E w3)"
    using sync ls by (cases r) (simp_all add: main_def)
  then have "filter (is_log_of ''Resource Creation'') (trace (snd (main E init_world))) =
             filter (is_log_of ''Resource Creation'') (trace w3)"
    by (auto simp: app_exec_no_creation)
  then show "filter (is_log_of ''Resource Creation'') (trace (snd (main E init_world))) =
              [Log (username E) ''Resource Creation''
                 (''Created missing GIF directory: '' @ gif_dir E) info]"
    using f1 f3 by simp
next
  fix e assume bad: "mkdir_exc E = Some e"
  show m: "main E init_world =
              (SystemExit 1, w1\<lparr>trace := trace w1 @
                 [SetWindowIcon (icon_path E), Mkdir (gif_dir E),
                  Log (username E) ''Resource Error''
                    (''GIF directory not found and could not be created: '' @ gif_dir E) error,
                  Log (username E) ''Resource Error'' (''Error: '' @ str e) error,
                  CriticalDialog ''Resource Error'' (gif_error_content (gif_dir E) e)]\<rparr>)"
    using boot gif_not_created [OF absent bad]
    by (simp add: main_def main_sync_def resources_and_splash_def emit_def)
  have "filter is_critical (trace w1) = []"
    using boot by (rule bootstrap_filter) (auto dest: critical_stage)
  then show "filter is_critical (trace (snd (main E init_world))) =
              [CriticalDialog ''Resource Error'' (gif_error_content (gif_dir E) e)]"
    by (simp add: m)
  show "sublist (gif_dir E) (gif_error_content (gif_dir E) e)" by (rule gif_content_dir)
  show "sublist (str e) (gif_error_content (gif_dir E) e)" by (rule gif_content_err)
qed


lemma boot_no_gif_dir:
  "bootstrap_data env_no_gif_dir (init_logging env_no_gif_dir init_world) =
   (Inr (), \<lparr>trace = [CreateQApplication, InitLogBook ''logs/app.log'',
                       LoadData ''data/turbines.csv'' None],
             data_model = Some PrimaryData, loads = 1, creates = 0\<rparr>)"
  by (simp add: env_no_gif_dir_def env_ok_def bootstrap_data_def load_data_def
      file_operation_retry_def policy_def load_data_body_def WindFarmDataManager_load_data_def
      init_logging_def init_world_def emit_def eval_nat_numeral)

lemma boot_gif_denied:
  "bootstrap_data env_gif_denied (init_logging env_gif_denied init_world) =
   (Inr (), \<lparr>trace = [CreateQApplication, InitLogBook ''logs/app.log'',
                       LoadData ''data/turbines.csv'' None],
             data_model = Some PrimaryData, loads = 1, creates = 0\<rparr>)"
  by (simp add: env_gif_denied_def env_ok_def bootstrap_data_def load_data_def
      file_operation_retry_def policy_def load_data_body_def WindFarmDataManager_load_data_def
      init_logging_def init_world_def emit_def eval_nat_numeral)

theorem gif_directory_absent_witness:
  "\<not> gif_is_dir env_no_gif_dir \<and> mkdir_exc env_no_gif_dir = None \<and>
   filter (is_log_of ''Resource Creation'') (trace (snd (main env_no_gif_dir init_world))) =
     [Log ''pierre'' ''Resource Creation'' ''Created missing GIF directory: gifs'' info] \<and>
   \<not> gif_is_dir env_gif_denied \<and> mkdir_exc env_gif_denied = Some (Exception ''Permission denied'') \<and>
   fst (main env_gif_denied init_world) = SystemExit 1 \<and>
   filter is_critical (trace (snd (main env_gif_denied init_world))) =
     [CriticalDialog ''Resource Error''
        (gif_error_content ''gifs'' (Exception ''Permission denied''))]"
proof -
  have a: "\<not> gif_is_dir env_no_gif_dir" and b: "mkdir_exc env_no_gif_dir = None"
    by (simp_all add: env_no_gif_dir_def env_ok_def)
  have c: "\<not> gif_is_dir env_gif_denied"
    and d: "mkdir_exc env_gif_denied = Some (Exception ''Permission denied'')"
    by (simp_all add: env_gif_denied_def env_ok_def)
  have e: "gif_dir env_no_gif_dir = ''gifs''" "username env_no_gif_dir = ''pierre''"
    "gif_dir env_gif_denied = ''gifs''"
    by (simp_all add: env_no_gif_dir_def env_gif_denied_def env_ok_def)
  show ?thesis
    using gif_directory_absent [OF boot_no_gif_dir a] gif_directory_absent [OF boot_gif_denied c]
      a b c d
    by (simp add: e)
qed

section \<open>Resource resolution: the logo\<close>

lemma logo_fallback:
  "\<not> logo_exists E \<Longrightarrow> fallback_logo_exists E \<Longrightarrow>
     resolve_logo E w =
       (Inr (fallback_logo_path E),
        w\<lparr>trace := trace w @
           [Log (username E) ''Resource Warning''
              (''Logo file not found: '' @ logo_path E) warning,
            Log (username E) ''Resource Fallback''
              (''Using fallback logo: '' @ fallback_logo_path E) info]\<rparr>)"
  by (simp add: resolve_logo_def Let_def call_simps)

lemma logo_fatal:
  "\<not> logo_exists E \<Longrightarrow> \<not> fallback_logo_exists E \<Longrightarrow>
     resolve_logo E w =
       (Inl (SystemExit 1),
        w\<lparr>trace := trace w @
           [Log (username E) ''Resource Warning''
              (''Logo file not found: '' @ logo_path E) warning,
            CriticalDialog ''Resource Error''
              (logo_error_content (logo_path E))]\<rparr>)"
  by (simp add: resolve_logo_def Let_def call_simps)

text \<open>
  Claim C5. When the sequence reaches the check of the logo and the logo is absent: if
  \<^verbatim>\<open>fallback_logo.svg\<close> exists, the logo path becomes the fallback path, a fallback
  event is logged and the sequence goes on to the services and the splash screen with
  that path; if the fallback is absent too, a critical dialog is shown and the run ends
  with \<^verbatim>\<open>sys.exit(1)\<close>.
\<close>

theorem logo_absent:
  assumes boot: "bootstrap_data E (init_logging E w0) = (Inr (), w1)"
    and gif: "resolve_gif_directory E
                (emit (SetWindowIcon (icon_path E)) w1) = (Inr (), w2)"
    and absent: "\<not> logo_exists E"
  shows "(fallback_logo_exists E \<longrightarrow>
            main_sync E w0 =
              show_splash E (fallback_logo_path E)
                (w2\<lparr>trace := trace w2 @
                   [Log (username E) ''Resource Warning''
                      (''Logo file not found: '' @ logo_path E)
                      warning,
                    Log (username E) ''Resource Fallback''
                      (''Using fallback logo: '' @ fallback_logo_path E)
                      info]\<rparr>)) \<and>
         (\<not> fallback_logo_exists E \<longrightarrow>
            main E w0 =
              (SystemExit 1,
               w2\<lparr>trace := trace w2 @
                  [Log (username E) ''Resource Warning''
                     (''Logo file not found: '' @ logo_path E)
                     warning,
                   CriticalDialog ''Resource Error''
                     (logo_error_content (logo_path E))]\<rparr>))"
  using boot gif logo_fallback [OF absent, of w2] logo_fatal [OF absent, of w2]
  by (simp add: main_def main_sync_def resources_and_splash_def logo_and_splash_def)

lemma boot_no_logo:
  "bootstrap_data env_no_logo (init_logging env_no_logo init_world) =
   (Inr (), \<lparr>trace = [CreateQApplication, InitLogBook ''logs/app.log'',
                       LoadData ''data/turbines.csv'' None],
             data_model = Some PrimaryData, loads = 1, creates = 0\<rparr>)"
  by (simp add: env_no_logo_def env_ok_def model_defs eval_nat_numeral)

lemma gif_no_logo:
  "resolve_gif_directory env_no_logo
     (emit (SetWindowIcon (icon_path env_no_logo))
        \<lparr>trace = [CreateQApplication, InitLogBook ''logs/app.log'',
                       LoadData ''data/turbines.csv'' None],
             data_model = Some PrimaryData, loads = 1, creates = 0\<rparr>) =
   (Inr (), \<lparr>trace = [CreateQApplication, InitLogBook ''logs/app.log'',
                       LoadData ''data/turbines.csv'' None, SetWindowIcon ''icons/logo_app.ico''],
             data_model = Some PrimaryData, loads = 1, creates = 0\<rparr>)"
  by (simp add: env_no_logo_def env_ok_def model_defs)

lemma boot_no_logos:
  "bootstrap_data env_no_logos (init_logging env_no_logos init_world) =
   (Inr (), \<lparr>trace = [CreateQApplication, InitLogBook ''logs/app.log'',
                       LoadData ''data/turbines.csv'' None],
             data_model = Some PrimaryData, loads = 1, creates = 0\<rparr>)"
  by (simp add: env_no_logos_def env_ok_def model_defs eval_nat_numeral)

lemma gif_no_logos:
  "resolve_gif_directory env_no_logos
     (emit (SetWindowIcon (icon_path env_no_logos))
        \<lparr>trace = [CreateQApplication, InitLogBook ''logs/app.log'',
                       LoadData ''data/turbines.csv'' None],
             data_model = Some PrimaryData, loads = 1, creates = 0\<rparr>) =
   (Inr (), \<lparr>trace = [CreateQApplication, InitLogBook ''logs/app.log'',
                       LoadData ''data/turbines.csv'' None, SetWindowIcon ''icons/logo_app.ico''],
             data_model = Some PrimaryData, loads = 1, creates = 0\<rparr>)"
  by (simp add: env_no_logos_def env_ok_def model_defs)

theorem logo_absent_witness:
  "\<not> logo_exists env_no_logo \<and> fallback_logo_exists env_no_logo \<and>
   main_sync env_no_logo init_world =
     (Inr (), \<lparr>trace = [CreateQApplication, InitLogBook ''logs/app.log'',
                 LoadData ''data/turbines.csv'' None, SetWindowIcon ''icons/logo_app.ico'',
                 Log ''pierre'' ''Resource Warning''
                   ''Logo file not found: icons/splash_icon.svg'' warning,
                 Log ''pierre'' ''Resource Fallback''
                   ''Using fallback logo: icons/fallback_logo.svg'' info,
                 CreateAuthService, CreateMainWindow,
                 CreateSplashScreen ''gifs'' ''PYE'' ''icons/fallback_logo.svg'',
                 SplashShow, ConnectSplashClosed],
               data_model = Some PrimaryData, loads = 1, creates = 0\<rparr>) \<and>
   \<not> logo_exists env_no_logos \<and> \<not> fallback_logo_exists env_no_logos \<and>
   fst (main env_no_logos init_world) = SystemExit 1"
proof -
  have a: "\<not> logo_exists env_no_logo" and b: "fallback_logo_exists env_no_logo"
    by (simp_all add: env_no_logo_def env_ok_def)
  have c: "\<not> logo_exists env_no_logos" and d: "\<not> fallback_logo_exists env_no_logos"
    by (simp_all add: env_no_logos_def env_ok_def)
  have e: "show_splash env_no_logo p w =
     (Inr (), w\<lparr>trace := trace w @ [CreateAuthService, CreateMainWindow,
                 CreateSplashScreen ''gifs'' ''PYE'' p, SplashShow, ConnectSplashClosed]\<rparr>)" for p w
    by (simp add: env_no_logo_def env_ok_def show_splash_def call_def emit_def)
  have f: "username env_no_logo = ''pierre''" "logo_path env_no_logo = ''icons/splash_icon.svg''"
    "fallback_logo_path env_no_logo = ''icons/fallback_logo.svg''"
    by (simp_all add: env_no_logo_def env_ok_def)
  show ?thesis
    using logo_absent [OF boot_no_logo gif_no_logo a] logo_absent [OF boot_no_logos gif_no_logos c]
      a b c d
    by (simp add: e f)
qed

section \<open>Data bootstrap: a load failure other than a missing file\<close>

text \<open>
  In general: when the wrapper makes at least one attempt and the load fails with a
  message that does not contain "No such file or directory", the bootstrap returns
  after one load and one log entry, and the data model is what it was.
\<close>

lemma load_failure_swallowed:
  assumes "0 < retry_max_attempts E" "load_data_exc E (loads w) = Some e"
    "\<not> sublist ''No such file or directory'' (str e)"
  shows "bootstrap_data E w =
     (Inr (),
      w\<lparr>trace := trace w @
         [LoadData (data_file_path E) None,
          Log (username E) ''Data Loading Error'' (''Error loading data: '' @ str e) error],
        loads := Suc (loads w)\<rparr>)"
proof -
  have "attempts (policy E) 1 (retry_max_attempts E) (load_data_body E (data_file_path E) None) w =
     (Inr False,
      w\<lparr>trace := trace w @
         [LoadData (data_file_path E) None,
          Log (username E) ''Data Loading Error'' (''Error loading data: '' @ str e) error],
        loads := Suc (loads w)\<rparr>)"
    using assms(1) unreadable_file_body [OF assms(2,3)] by (rule attempts_first_returns)
  then show ?thesis
    by (simp add: bootstrap_data_def load_data_def file_operation_retry_def policy_def)
qed

text \<open>
  Claim C1, on the run where the data file cannot be read: \<^verbatim>\<open>load_data\<close> logs the
  error and returns \<^verbatim>\<open>False\<close>, the wrapper has nothing to retry, \<^verbatim>\<open>main\<close> drops
  the value, the fallback is never called and the sequence runs to the end with no data
  model.
\<close>

theorem unreadable_data_file_run:
  "main env_unreadable init_world =
     (SystemExit 0,
      \<lparr>trace =
         [CreateQApplication, InitLogBook ''logs/app.log'', LoadData ''data/turbines.csv'' None,
          Log ''pierre'' ''Data Loading Error'' ''Error loading data: Permission denied'' error,
          SetWindowIcon ''icons/logo_app.ico'', CreateAuthService, CreateMainWindow,
          CreateSplashScreen ''gifs'' ''PYE'' ''icons/splash_icon.svg'',
          SplashShow, ConnectSplashClosed, AppExec, SplashClosedSignal,
          SetAuthService, WindowShow, CheckForUpdates, CurrentText,
          UpdateDashboard ''Park A'', UpdateParkName ''Park A'',
          UpdateSelectedPark ''Park A'', MonitorMemoryUsage],
       data_model = None, loads = 1, creates = 0\<rparr>)"
  by (simp add: env_unreadable_def env_ok_def model_defs eval_nat_numeral denied_not_missing)

section \<open>Deferred activation: which tasks are isolated\<close>

lemmas handler_defs =
  on_splash_closed_def update_check_def init_dashboard_def dashboard_updates_def
  monitor_memory_def call_def emit_def log_event_def Let_def

lemma grows_emitted: "grows Q w w' \<Longrightarrow> trace w' = trace w @ emitted w w'"
  by (auto simp: grows_def emitted_def)

lemma emitted_trans:
  "grows Q w w1 \<Longrightarrow> grows R w1 w2 \<Longrightarrow> emitted w w2 = emitted w w1 @ emitted w1 w2"
  by (auto simp: grows_def emitted_def)

lemma starts_update_check: "filter task_start (emitted w (update_check E w)) = [CheckForUpdates]"
  by (simp add: update_check_def call_simps emitted_def split: option.split)

lemma starts_monitor_memory: "filter task_start (emitted w (monitor_memory E w)) = [MonitorMemoryUsage]"
  by (simp add: monitor_memory_def call_simps emitted_def split: option.split)

lemma starts_dashboard_updates:
  "filter task_start (emitted w (snd (dashboard_updates E w))) = [CurrentText]"
  by (simp add: dashboard_updates_def call_simps emitted_def Let_def split: option.split sum.split)


lemma starts_init_dashboard: "filter task_start (emitted w (init_dashboard E w)) = [CurrentText]"
proof -
  obtain r w1 where d: "dashboard_updates E w = (r, w1)" by (cases "dashboard_updates E w")
  have g: "grows in_deferred w w1"
    using grows_dashboard_updates [of w E] by (simp only: d snd_conv)
  have s1: "filter task_start (emitted w w1) = [CurrentText]"
    using starts_dashboard_updates [of w E] by (simp only: d snd_conv)
  show ?thesis
  proof (cases r)
    case (Inr u)
    then show ?thesis using d s1 by (simp add: init_dashboard_def)
  next
    case (Inl e)
    let ?w2 = "emit (WarningDialog ''Dashboard Error'' dashboard_error_content)
            (log_event (username E) ''Dashboard Initialization Error''
               (''Error initializing dashboard: '' @ str e) error w1)"
    have g2: "grows (\<lambda>e. \<not> task_start e) w1 ?w2"
      by (simp add: grows_def call_simps)
    have "emitted w ?w2 = emitted w w1 @ emitted w1 ?w2"
      using g g2 by (rule emitted_trans)
    moreover have "filter task_start (emitted w1 ?w2) = []"
      by (simp add: emitted_def call_simps)
    ultimately show ?thesis using d Inl s1 by (simp add: init_dashboard_def)
  qed
qed

lemma starts_tasks:
  "filter task_start (emitted w (monitor_memory E (init_dashboard E (update_check E w)))) =
     [CheckForUpdates, CurrentText, MonitorMemoryUsage]"
proof -
  let ?w1 = "update_check E w"
  let ?w2 = "init_dashboard E ?w1"
  let ?w3 = "monitor_memory E ?w2"
  have g1: "grows in_deferred w ?w1" by (rule grows_update_check)
  have g2: "grows in_deferred ?w1 ?w2" by (rule grows_init_dashboard)
  have g3: "grows in_deferred ?w2 ?w3" by (rule grows_monitor_memory)
  have a: "emitted w ?w2 = emitted w ?w1 @ emitted ?w1 ?w2"
    using g1 g2 by (rule emitted_trans)
  have "emitted w ?w3 = emitted w ?w2 @ emitted ?w2 ?w3"
    using grows_trans [OF g1 g2] g3 by (rule emitted_trans)
  then show ?thesis
    by (simp add: a starts_update_check starts_init_dashboard starts_monitor_memory)
qed

lemma handler_reaches_tasks:
  "(has_set_auth_service E \<longrightarrow> set_auth_service_exc E = None) \<Longrightarrow> window_show_exc E = None \<Longrightarrow>
     on_splash_closed E w =
       (Inr (), monitor_memory E (init_dashboard E (update_check E
                  (w\<lparr>trace := trace w @ before_tasks E\<rparr>))))"
  by (simp add: on_splash_closed_def call_simps before_tasks_def)

lemma emitted_after:
  "grows Q (w\<lparr>trace := trace w @ es\<rparr>) w' \<Longrightarrow> emitted w w' = es @ emitted (w\<lparr>trace := trace w @ es\<rparr>) w'"
  by (auto simp: grows_def emitted_def)

lemma starts_before_tasks: "filter task_start (before_tasks E) = []"
  by (simp add: before_tasks_def)

text \<open>
  Claim C3, as stated, on the run where showing the main window raises: the exception
  leaves the handler, and the update check, the dashboard and the memory probe never run.
\<close>

theorem show_failure_escapes:
  "on_splash_closed env_show_fails init_world =
     (Inl (Exception ''no display''),
      \<lparr>trace = [SetAuthService, WindowShow], data_model = None, loads = 0, creates = 0\<rparr>)"
  by (simp add: env_show_fails_def env_ok_def model_defs)

text \<open>
  Claim C3, amended. When the first two statements of the handler return (binding the
  authentication service, showing the window), the handler returns normally and each of
  the tasks 3, 4 and 5 is started exactly once and in this order, whatever any of them
  raises: an exception in one of these tasks is caught at the task. An exception raised
  by binding the authentication service or by showing the window is not caught: it
  leaves the handler and no later task runs.
\<close>

theorem guarded_tasks_isolated:
  "((has_set_auth_service E \<longrightarrow> set_auth_service_exc E = None) \<and> window_show_exc E = None \<longrightarrow>
      fst (on_splash_closed E w) = Inr () \<and>
      filter task_start (emitted w (snd (on_splash_closed E w))) =
        [CheckForUpdates, CurrentText, MonitorMemoryUsage]) \<and>
   (\<forall>e. has_set_auth_service E \<and> set_auth_service_exc E = Some e \<longrightarrow>
      on_splash_closed E w = (Inl e, emit SetAuthService w)) \<and>
   (\<forall>e. (has_set_auth_service E \<longrightarrow> set_auth_service_exc E = None) \<and> window_show_exc E = Some e \<longrightarrow>
      fst (on_splash_closed E w) = Inl e \<and>
      emitted w (snd (on_splash_closed E w)) = before_tasks E)"
proof (intro conjI impI allI)
  assume a: "(has_set_auth_service E \<longrightarrow> set_auth_service_exc E = None) \<and> window_show_exc E = None"
  let ?w0 = "w\<lparr>trace := trace w @ before_tasks E\<rparr>"
  let ?w' = "monitor_memory E (init_dashboard E (update_check E ?w0))"
  have h: "on_splash_closed E w = (Inr (), ?w')"
    using a by (simp add: handler_reaches_tasks)
  show "fst (on_splash_closed E w) = Inr ()" by (simp add: h)
  have "emitted w ?w' = before_tasks E @ emitted ?w0 ?w'"
    by (rule emitted_after [OF grows_tasks])
  then show "filter task_start (emitted w (snd (on_splash_closed E w))) =
        [CheckForUpdates, CurrentText, MonitorMemoryUsage]"
    by (simp add: h starts_tasks starts_before_tasks)
next
  fix e assume "has_set_auth_service E \<and> set_auth_service_exc E = Some e"
  then show "on_splash_closed E w = (Inl e, emit SetAuthService w)"
    by (simp add: on_splash_closed_def call_def)
next
  fix e
  assume a: "(has_set_auth_service E \<longrightarrow> set_auth_service_exc E = None) \<and> window_show_exc E = Some e"
  then show "fst (on_splash_closed E w) = Inl e"
    by (simp add: on_splash_closed_def call_def)
  show "emitted w (snd (on_splash_closed E w)) = before_tasks E"
    using a by (simp add: on_splash_closed_def call_simps emitted_def before_tasks_def)
qed

theorem guarded_tasks_isolated_witness:
  "has_set_auth_service env_update_fails \<and> set_auth_service_exc env_update_fails = None \<and>
   window_show_exc env_update_fails = None \<and>
   check_for_updates_exc env_update_fails = Some (Exception ''offline'') \<and>
   fst (on_splash_closed env_update_fails init_world) = Inr () \<and>
   filter task_start (emitted init_world (snd (on_splash_closed env_update_fails init_world))) =
     [CheckForUpdates, CurrentText, MonitorMemoryUsage] \<and>
   window_show_exc env_show_fails = Some (Exception ''no display'') \<and>
   fst (on_splash_closed env_show_fails init_world) = Inl (Exception ''no display'')"
  using guarded_tasks_isolated [of env_update_fails init_world]
    guarded_tasks_isolated [of env_show_fails init_world]
  by (simp add: env_update_fails_def env_show_fails_def env_ok_def)

section \<open>Deferred activation: a failing update check\<close>

lemma update_check_raises:
  "check_for_updates_exc E = Some e \<Longrightarrow>
     update_check E w =
       w\<lparr>trace := trace w @
          [CheckForUpdates,
           Log (username E) ''Update Check Error'' (''Error checking for updates: '' @ str e) error]\<rparr>"
  by (simp add: update_check_def call_simps)

lemma update_check_returns:
  "check_for_updates_exc E = None \<Longrightarrow> update_check E w = w\<lparr>trace := trace w @ [CheckForUpdates]\<rparr>"
  by (simp add: update_check_def call_simps)

lemma dashboard_updates_any_world:
  "dashboard_updates E w =
     (fst (dashboard_updates E init_world),
      w\<lparr>trace := trace w @ trace (snd (dashboard_updates E init_world))\<rparr>)"
  by (simp add: dashboard_updates_def call_simps Let_def init_world_def split: option.split sum.split)

lemma init_dashboard_any_world:
  "init_dashboard E w = w\<lparr>trace := trace w @ trace (init_dashboard E init_world)\<rparr>"
proof -
  obtain r w1 where d: "dashboard_updates E init_world = (r, w1)"
    by (cases "dashboard_updates E init_world")
  have "dashboard_updates E w = (r, w\<lparr>trace := trace w @ trace w1\<rparr>)"
    using dashboard_updates_any_world [of E w] by (simp add: d)
  then show ?thesis
    using d by (cases r) (simp_all add: init_dashboard_def call_simps)
qed

lemma monitor_memory_any_world:
  "monitor_memory E w = w\<lparr>trace := trace w @ trace (monitor_memory E init_world)\<rparr>"
  by (simp add: monitor_memory_def call_simps init_world_def split: option.split)

lemma later_tasks_any_world:
  "monitor_memory E (init_dashboard E w) = w\<lparr>trace := trace w @ later_tasks E\<rparr>"
proof -
  have "monitor_memory E (init_dashboard E w) =
        (init_dashboard E w)\<lparr>trace := trace (init_dashboard E w) @ trace (monitor_memory E init_world)\<rparr>"
    by (rule monitor_memory_any_world)
  also have "\<dots> = w\<lparr>trace := trace w @ (trace (init_dashboard E init_world) @ trace (monitor_memory E init_world))\<rparr>"
    by (subst (1 2) init_dashboard_any_world) simp
  also have "trace (init_dashboard E init_world) @ trace (monitor_memory E init_world) = later_tasks E"
    unfolding later_tasks_def by (subst (2) monitor_memory_any_world) simp
  finally show ?thesis .
qed

lemma dashboard_updates_update_check_irrelevant:
  "dashboard_updates (E\<lparr>check_for_updates_exc := x\<rparr>) w = dashboard_updates E w"
  by (simp add: dashboard_updates_def Let_def cong: sum.case_cong if_cong prod.case_cong)

lemma init_dashboard_update_check_irrelevant:
  "init_dashboard (E\<lparr>check_for_updates_exc := x\<rparr>) w = init_dashboard E w"
  by (simp add: init_dashboard_def dashboard_updates_update_check_irrelevant
      split: prod.split sum.split)

lemma monitor_memory_update_check_irrelevant:
  "monitor_memory (E\<lparr>check_for_updates_exc := x\<rparr>) w = monitor_memory E w"
  by (simp add: monitor_memory_def split: prod.split sum.split)

lemma later_tasks_update_check_irrelevant:
  "later_tasks (E\<lparr>check_for_updates_exc := x\<rparr>) = later_tasks E"
  by (simp add: later_tasks_def init_dashboard_update_check_irrelevant
      monitor_memory_update_check_irrelevant)

lemma update_log_stage:
  "is_log_of ''Update Check Error'' e \<Longrightarrow> \<not> task_start e"
  by (cases e) simp_all

lemma later_tasks_no_update_log:
  "filter (is_log_of ''Update Check Error'') (later_tasks E) = []"
proof -
  have a: "filter (is_log_of ''Update Check Error'') (trace (snd (dashboard_updates E init_world))) = []"
    by (simp add: dashboard_updates_def call_simps Let_def init_world_def
        split: option.split sum.split)
  obtain r w1 where d: "dashboard_updates E init_world = (r, w1)"
    by (cases "dashboard_updates E init_world")
  have b: "filter (is_log_of ''Update Check Error'') (trace (init_dashboard E init_world)) = []"
    using a d by (cases r) (simp_all add: init_dashboard_def call_simps)
  have c: "filter (is_log_of ''Update Check Error'') (trace (monitor_memory E init_world)) = []"
    by (simp add: monitor_memory_def call_simps init_world_def split: option.split)
  have "later_tasks E = trace (init_dashboard E init_world) @ trace (monitor_memory E init_world)"
    unfolding later_tasks_def by (subst monitor_memory_any_world) simp
  then show ?thesis using b c by simp
qed

text \<open>
  Claim C6. When the handler reaches the update check and \<^verbatim>\<open>check_for_updates\<close>
  raises: the handler returns normally; what tasks 4 and 5 do is what they do in the run
  where the update check returns (the two traces differ by the one log entry); and the
  handler logs exactly one entry for the update check, at level error.
\<close>

theorem update_check_failure_isolated:
  assumes t12: "has_set_auth_service E \<longrightarrow> set_auth_service_exc E = None" "window_show_exc E = None"
    and t3: "check_for_updates_exc E = Some e"
  shows "on_splash_closed E w =
           (Inr (), w\<lparr>trace := trace w @ before_tasks E @
              [CheckForUpdates,
               Log (username E) ''Update Check Error''
                 (''Error checking for updates: '' @ str e) error] @ later_tasks E\<rparr>) \<and>
         on_splash_closed (E\<lparr>check_for_updates_exc := None\<rparr>) w =
           (Inr (), w\<lparr>trace := trace w @ before_tasks E @ [CheckForUpdates] @ later_tasks E\<rparr>) \<and>
         filter (is_log_of ''Update Check Error'') (emitted w (snd (on_splash_closed E w))) =
           [Log (username E) ''Update Check Error''
              (''Error checking for updates: '' @ str e) error]"
proof -
  have a: "on_splash_closed E w =
           (Inr (), w\<lparr>trace := trace w @ before_tasks E @
              [CheckForUpdates,
               Log (username E) ''Update Check Error''
                 (''Error checking for updates: '' @ str e) error] @ later_tasks E\<rparr>)"
    using t12 by (simp add: handler_reaches_tasks update_check_raises [OF t3] later_tasks_any_world)
  let ?E = "E\<lparr>check_for_updates_exc := None\<rparr>"
  have "on_splash_closed ?E w =
          (Inr (), monitor_memory ?E (init_dashboard ?E (update_check ?E
                  (w\<lparr>trace := trace w @ before_tasks ?E\<rparr>))))"
    by (rule handler_reaches_tasks) (simp_all add: t12)
  then have b: "on_splash_closed ?E w =
           (Inr (), w\<lparr>trace := trace w @ before_tasks E @ [CheckForUpdates] @ later_tasks E\<rparr>)"
    by (simp add: update_check_returns later_tasks_any_world later_tasks_update_check_irrelevant
        before_tasks_def)
  have "filter (is_log_of ''Update Check Error'') (before_tasks E) = []"
    by (simp add: before_tasks_def)
  then have c: "filter (is_log_of ''Update Check Error'') (emitted w (snd (on_splash_closed E w))) =
           [Log (username E) ''Update Check Error''
              (''Error checking for updates: '' @ str e) error]"
    by (simp add: a emitted_def later_tasks_no_update_log)
  show ?thesis using a b c by simp
qed

theorem update_check_failure_isolated_witness:
  "has_set_auth_service env_update_fails \<and> set_auth_service_exc env_update_fails = None \<and>
   window_show_exc env_update_fails = None \<and>
   check_for_updates_exc env_update_fails = Some (Exception ''offline'') \<and>
   on_splash_closed env_update_fails init_world =
     (Inr (),
      \<lparr>trace = [SetAuthService, WindowShow, CheckForUpdates,
                Log ''pierre'' ''Update Check Error'' ''Error checking for updates: offline'' error,
                CurrentText, UpdateDashboard ''Park A'', UpdateParkName ''Park A'',
                UpdateSelectedPark ''Park A'', MonitorMemoryUsage],
       data_model = None, loads = 0, creates = 0\<rparr>)"
proof -
  have a: "has_set_auth_service env_update_fails \<longrightarrow> set_auth_service_exc env_update_fails = None"
    and b: "window_show_exc env_update_fails = None"
    and c: "check_for_updates_exc env_update_fails = Some (Exception ''offline'')"
    by (simp_all add: env_update_fails_def env_ok_def)
  have d: "later_tasks env_update_fails =
      [CurrentText, UpdateDashboard ''Park A'', UpdateParkName ''Park A'',
       UpdateSelectedPark ''Park A'', MonitorMemoryUsage]"
    "before_tasks env_update_fails = [SetAuthService, WindowShow]"
    "username env_update_fails = ''pierre''"
    by (simp_all add: later_tasks_def before_tasks_def env_update_fails_def env_ok_def model_defs)
  have e: "has_set_auth_service env_update_fails" "set_auth_service_exc env_update_fails = None"
    by (simp_all add: env_update_fails_def env_ok_def)
  show ?thesis
    using update_check_failure_isolated [OF a b c, of init_world] b c e
    by (simp add: d init_world_def)
qed

section \<open>Deferred activation: the selected park\<close>

lemma emitted_init_dashboard:
  "emitted w (init_dashboard E w) = trace (init_dashboard E init_world)"
  by (subst init_dashboard_any_world) (simp add: emitted_def)

lemma no_park_selected:
  "current_text E = Inr [] \<Longrightarrow> init_dashboard E w = emit CurrentText w"
  by (simp add: init_dashboard_def dashboard_updates_def Let_def)

lemma park_selected:
  assumes "current_text E = Inr p" "p \<noteq> []"
  shows "UpdateDashboard p \<in> set (trace (init_dashboard E init_world))"
    and "UpdateParkName p \<in> set (trace (init_dashboard E init_world)) \<longleftrightarrow>
           update_dashboard_exc E = None \<and> has_import_raw_data_page E"
    and "UpdateSelectedPark p \<in> set (trace (init_dashboard E init_world)) \<longleftrightarrow>
           update_dashboard_exc E = None \<and>
           (has_import_raw_data_page E \<longrightarrow> update_park_name_exc E = None)"
  using assms
  by (simp_all add: init_dashboard_def dashboard_updates_def call_simps Let_def init_world_def
      split: option.split)

text \<open>
  Claim C10, as stated, on the run where a park is selected and \<^verbatim>\<open>update_dashboard\<close>
  raises: the title bar is not updated.
\<close>

theorem dashboard_failure_skips_title_bar:
  "current_text env_dashboard_fails = Inr ''Park A'' \<and>
   UpdateSelectedPark ''Park A'' \<notin> set (trace (init_dashboard env_dashboard_fails init_world))"
  by (simp add: env_dashboard_fails_def env_ok_def model_defs)

text \<open>
  Claim C10, amended. In task 4, if the current text of the selection control is empty,
  nothing is done beyond reading it: no update of the dashboard, of the import page or of
  the title bar, no log entry and no warning. If it is non-empty, the dashboard update is
  always called; the import page is updated exactly when the dashboard update returned
  and the central content has an \<^verbatim>\<open>import_raw_data_page\<close> attribute; the title bar is
  updated exactly when the dashboard update returned and the import page update, if
  made, returned.
\<close>

theorem park_propagation:
  "(current_text E = Inr [] \<longrightarrow> init_dashboard E w = emit CurrentText w) \<and>
   (current_text E = Inr p \<and> p \<noteq> [] \<longrightarrow>
      UpdateDashboard p \<in> set (emitted w (init_dashboard E w)) \<and>
      (UpdateParkName p \<in> set (emitted w (init_dashboard E w)) \<longleftrightarrow>
         update_dashboard_exc E = None \<and> has_import_raw_data_page E) \<and>
      (UpdateSelectedPark p \<in> set (emitted w (init_dashboard E w)) \<longleftrightarrow>
         update_dashboard_exc E = None \<and>
         (has_import_raw_data_page E \<longrightarrow> update_park_name_exc E = None)))"
  using no_park_selected [of E w] park_selected [of E p]
  by (simp add: emitted_init_dashboard)

theorem park_propagation_witness:
  "current_text env_no_park = Inr [] \<and>
   init_dashboard env_no_park init_world = emit CurrentText init_world \<and>
   current_text env_ok = Inr ''Park A'' \<and>
   UpdateDashboard ''Park A'' \<in> set (emitted init_world (init_dashboard env_ok init_world)) \<and>
   UpdateParkName ''Park A'' \<in> set (emitted init_world (init_dashboard env_ok init_world)) \<and>
   UpdateSelectedPark ''Park A'' \<in> set (emitted init_world (init_dashboard env_ok init_world))"
  using park_propagation [of env_no_park init_world "[]"]
    park_propagation [of env_ok init_world "''Park A''"]
  by (simp add: env_no_park_def env_ok_def)

section \<open>Data bootstrap: when a warning dialog is shown\<close>

lemma attempts_returns:
  "attempts P i k f s = (Inr v, s') \<Longrightarrow> \<exists>s0. f s0 = (Inr v, s')"
proof (induction k arbitrary: i s)
  case 0
  then show ?case by simp
next
  case (Suc k)
  obtain r s1 where fs: "f s = (r, s1)" by (cases "f s")
  show ?case
  proof (cases r)
    case (Inr x)
    with Suc.prems fs show ?thesis by auto
  next
    case (Inl e)
    with Suc.prems fs
    have "attempts P (Suc i) k f (delay P i (log_attempt P i e s1)) = (Inr v, s')"
      by (simp add: Let_def split: if_splits)
    then show ?thesis by (rule Suc.IH)
  qed
qed

lemma fallback_impl_returns:
  "create_empty_data_fallback_impl E s0 = (Inr v, s') \<Longrightarrow>
     data_model s' = Some DefaultData \<and> trace s' \<noteq> [] \<and>
     last (trace s') = WarningDialog ''Data Loading Error'' fallback_message"
  by (auto simp add: create_empty_data_fallback_impl_def
      WindFarmDataManager_create_default_data_def call_simps Let_def split: option.splits)

lemma fallback_returns:
  "create_empty_data_fallback E w = (Inr v, w') \<Longrightarrow>
     data_model w' = Some DefaultData \<and> trace w' \<noteq> [] \<and>
     last (trace w') = WarningDialog ''Data Loading Error'' fallback_message"
  unfolding create_empty_data_fallback_def file_operation_retry_def
  by (blast dest: attempts_returns fallback_impl_returns)

lemma missing_file_body_no_dialog:
  assumes "load_data_exc E (loads w) = Some e"
    and "sublist ''No such file or directory'' (str e)"
    and "create_default_data_exc E (creates w) = None"
  shows "data_model (snd (load_data_body E p c w)) = Some DefaultData"
    and "filter is_warning_dialog (emitted w (snd (load_data_body E p c w))) = []"
  using assms
  by (simp_all add: load_data_body_def WindFarmDataManager_load_data_def
      WindFarmDataManager_create_default_data_def call_simps Let_def emitted_def)

text \<open>
  Claim C7, as stated, on the run where the data file is missing: the data model is the
  default dataset and the whole run shows no warning dialog.
\<close>

theorem missing_file_no_warning:
  "data_model (snd (main env_missing_file init_world)) = Some DefaultData \<and>
   filter is_warning_dialog (trace (snd (main env_missing_file init_world))) = []"
  by (simp add: env_missing_file_def env_ok_def model_defs eval_nat_numeral)

text \<open>
  Claim C7, amended. When \<^verbatim>\<open>load_data\<close> raises and the data bootstrap completes through
  \<^verbatim>\<open>create_empty_data_fallback\<close>, the data model is the default dataset and the last
  thing the bootstrap did is to show the warning dialog "Data Loading Error". In the
  file-not-found branch of \<^verbatim>\<open>load_data\<close> the default dataset is created with log
  entries only: no warning dialog is shown.
\<close>

theorem default_data_warning:
  "(load_data E (data_file_path E) None w = (Inl t, w1) \<and> bootstrap_data E w = (Inr u, w') \<longrightarrow>
      data_model w' = Some DefaultData \<and> trace w' \<noteq> [] \<and>
      last (trace w') = WarningDialog ''Data Loading Error'' fallback_message) \<and>
   (load_data_exc E (loads w) = Some e \<and> sublist ''No such file or directory'' (str e) \<and>
    create_default_data_exc E (creates w) = None \<longrightarrow>
      data_model (snd (load_data_body E p c w)) = Some DefaultData \<and>
      filter is_warning_dialog (emitted w (snd (load_data_body E p c w))) = [])"
proof -
  have a: "data_model w' = Some DefaultData \<and> trace w' \<noteq> [] \<and>
      last (trace w') = WarningDialog ''Data Loading Error'' fallback_message"
    if "load_data E (data_file_path E) None w = (Inl t, w1)" "bootstrap_data E w = (Inr u, w')"
  proof -
    have "create_empty_data_fallback E w1 = (Inr u, w')"
      using that by (auto simp: bootstrap_data_def split: prod.splits sum.splits)
    then show ?thesis by (rule fallback_returns)
  qed
  have b: "data_model (snd (load_data_body E p c w)) = Some DefaultData \<and>
      filter is_warning_dialog (emitted w (snd (load_data_body E p c w))) = []"
    if "load_data_exc E (loads w) = Some e" "sublist ''No such file or directory'' (str e)"
      "create_default_data_exc E (creates w) = None"
    using that by (simp add: missing_file_body_no_dialog)
  show ?thesis using a b by blast
qed

lemma load_create_fails_once:
  "load_data env_create_fails_once (data_file_path env_create_fails_once) None init_world =
     (Inl (TerminalFailure (Some (Exception ''disk full''))),
      \<lparr>trace =
         [LoadData ''data/turbines.csv'' None,
          Log ''pierre'' ''Data Loading Error''
            ''Error loading data: No such file or directory'' error,
          Log ''pierre'' ''Data Creation'' ''Creating default data file...'' info,
          CreateDefaultData, AttemptFailed 1 (Exception ''disk full'')],
        data_model = None, loads = 1, creates = 1\<rparr>)"
  by (simp add: env_create_fails_once_def env_missing_file_def env_ok_def model_defs)

lemma bootstrap_create_fails_once:
  "bootstrap_data env_create_fails_once init_world =
     (Inr (),
      \<lparr>trace =
         [LoadData ''data/turbines.csv'' None,
          Log ''pierre'' ''Data Loading Error''
            ''Error loading data: No such file or directory'' error,
          Log ''pierre'' ''Data Creation'' ''Creating default data file...'' info,
          CreateDefaultData, AttemptFailed 1 (Exception ''disk full''),
          Log ''pierre'' ''Data Loading Fallback''
            ''Creating empty default data to allow application to start'' warning,
          CreateDefaultData,
          WarningDialog ''Data Loading Error'' fallback_message],
        data_model = Some DefaultData, loads = 1, creates = 2\<rparr>)"
  by (simp add: env_create_fails_once_def env_missing_file_def env_ok_def model_defs)

theorem default_data_warning_witness:
  "fst (load_data env_create_fails_once (data_file_path env_create_fails_once) None init_world) =
     Inl (TerminalFailure (Some (Exception ''disk full''))) \<and>
   fst (bootstrap_data env_create_fails_once init_world) = Inr () \<and>
   data_model (snd (bootstrap_data env_create_fails_once init_world)) = Some DefaultData \<and>
   last (trace (snd (bootstrap_data env_create_fails_once init_world))) =
     WarningDialog ''Data Loading Error'' fallback_message \<and>
   load_data_exc env_missing_file (loads init_world) = Some (Exception ''No such file or directory'') \<and>
   create_default_data_exc env_missing_file (creates init_world) = None \<and>
   filter is_warning_dialog
     (emitted init_world (snd (load_data_body env_missing_file ''data/turbines.csv'' None init_world))) = []"
  using default_data_warning [of env_create_fails_once init_world
      "TerminalFailure (Some (Exception ''disk full''))"
      "snd (load_data env_create_fails_once (data_file_path env_create_fails_once) None init_world)"
      "()" "snd (bootstrap_data env_create_fails_once init_world)"]
    default_data_warning [of env_missing_file init_world _ _ _ _
      "Exception ''No such file or directory''" "''data/turbines.csv''" None]
  by (simp add: load_create_fails_once bootstrap_create_fails_once)
    (simp add: env_missing_file_def env_ok_def)

section \<open>The order of the stages\<close>

lemma ranks_append: "ranks (xs @ ys) = ranks xs @ ranks ys"
  by (induction xs) (simp_all add: ranks_def split: option.split)

lemma ranks_all_in:
  "list_all (\<lambda>e. stage_of e = Some X) es \<Longrightarrow> ranks es = replicate (length es) (stage_rank X)"
  by (induction es) (simp_all add: ranks_def)

lemma ranks_none: "list_all (\<lambda>e. stage_of e = None) es \<Longrightarrow> ranks es = []"
  by (induction es) (simp_all add: ranks_def)

lemma distinct_remdups_adj_sorted: "sorted (xs::nat list) \<Longrightarrow> distinct (remdups_adj xs)"
  by (induction xs rule: remdups_adj.induct) auto

lemma sorted_const: "set (xs::nat list) \<subseteq> {c} \<Longrightarrow> sorted xs"
  by (induction xs) auto

lemma upto_remdups:
  assumes "sorted (rs::nat list)" "set rs = {0..m}"
  shows "remdups_adj rs = [0..<Suc m]"
proof (rule sorted_distinct_set_unique)
  show "sorted (remdups_adj rs)" using assms(1) by simp
  show "distinct (remdups_adj rs)" using assms(1) by (rule distinct_remdups_adj_sorted)
  show "sorted [0..<Suc m]" by (rule sorted_upt)
  show "distinct [0..<Suc m]" by (rule distinct_upt)
  show "set (remdups_adj rs) = set [0..<Suc m]"
    using assms(2) by (simp only: remdups_adj_set set_upt atLeastLessThanSuc_atLeastAtMost)
qed

lemma reached_remdups: "reached m es \<Longrightarrow> remdups_adj (ranks es) = [0..<Suc m]"
  by (simp only: reached_def upto_remdups)

lemma reached_same:
  assumes "reached m es" "set (ranks ds) \<subseteq> {m}"
  shows "reached m (es @ ds)"
proof -
  have "sorted (ranks ds)" using assms(2) by (rule sorted_const)
  then have "sorted (ranks es @ ranks ds)"
    using assms by (auto simp: reached_def sorted_append)
  moreover have "set (ranks es @ ranks ds) = {0..m}"
    using assms by (auto simp: reached_def)
  ultimately show ?thesis by (simp add: reached_def ranks_append)
qed

lemma reached_next:
  assumes "reached m es" "sorted (ranks ds)" "set (ranks ds) = {Suc m..j}" "Suc m \<le> j"
  shows "reached j (es @ ds)"
proof -
  have "sorted (ranks es @ ranks ds)"
    using assms by (auto simp: reached_def sorted_append)
  moreover have "set (ranks es @ ranks ds) = {0..j}"
    using assms by (auto simp: reached_def)
  ultimately show ?thesis by (simp add: reached_def ranks_append)
qed

lemma reached_block:
  assumes "reached m es" "list_all (\<lambda>e. stage_of e = Some X) ds" "ds \<noteq> []"
    "stage_rank X = Suc m"
  shows "reached (Suc m) (es @ ds)"
proof -
  have r: "ranks ds = replicate (length ds) (Suc m)"
    using assms(2,4) by (simp add: ranks_all_in)
  have s1: "sorted (ranks ds)" unfolding r by simp
  have s2: "set (ranks ds) = {Suc m..Suc m}" unfolding r using assms(3) by auto
  show ?thesis by (rule reached_next [OF assms(1) s1 s2]) simp
qed

lemma reached_more:
  assumes "reached m es" "list_all (\<lambda>e. stage_of e = Some X) ds" "stage_rank X = m"
  shows "reached m (es @ ds)"
proof -
  have r: "ranks ds = replicate (length ds) m"
    using assms(2,3) by (simp add: ranks_all_in)
  have "set (ranks ds) \<subseteq> {m}" unfolding r by auto
  with assms(1) show ?thesis by (rule reached_same)
qed

lemma reached_unstaged:
  assumes "reached m es" "list_all (\<lambda>e. stage_of e = None) ds"
  shows "reached m (es @ ds)"
  using assms by (simp add: reached_def ranks_append ranks_none)


lemma grows_obtain:
  assumes "grows Q w w'"
  obtains es where "trace w' = trace w @ es" "list_all Q es"
  using assms by (auto simp: grows_def)

lemma grows_length: "grows Q w w' \<Longrightarrow> length (trace w) \<le> length (trace w')"
  by (auto simp: grows_def)

lemma attempts_returns_longer:
  assumes g: "\<And>s. grows Q s (snd (f s))"
    and l: "\<And>s. length (trace s) < length (trace (snd (f s)))"
  shows "attempts (policy E) i k f s = (Inr v, s') \<Longrightarrow> length (trace s) < length (trace s')"
proof (induction k arbitrary: i s)
  case 0
  then show ?case by simp
next
  case (Suc k)
  obtain r s1 where fs: "f s = (r, s1)" by (cases "f s")
  have l1: "length (trace s) < length (trace s1)" using l [of s] by (simp add: fs)
  show ?case
  proof (cases r)
    case (Inr x)
    with Suc.prems fs l1 show ?thesis by auto
  next
    case (Inl e)
    let ?s2 = "emit (Delay i) (emit (AttemptFailed i e) s1)"
    from Suc.prems fs Inl
    have "attempts (policy E) (Suc i) k f ?s2 = (Inr v, s')"
      by (simp add: Let_def policy_def split: if_splits)
    then have "length (trace ?s2) < length (trace s')" by (rule Suc.IH)
    then show ?thesis using l1 by (simp add: emit_def)
  qed
qed

lemma load_data_body_longer: "length (trace w) < length (trace (snd (load_data_body E p c w)))"
  by (simp add: load_data_body_def WindFarmDataManager_load_data_def
      WindFarmDataManager_create_default_data_def call_simps Let_def split: option.split)

lemma fallback_impl_longer:
  "length (trace w) < length (trace (snd (create_empty_data_fallback_impl E w)))"
  by (simp add: create_empty_data_fallback_impl_def
      WindFarmDataManager_create_default_data_def call_simps Let_def split: option.split)

lemma bootstrap_returns_longer:
  assumes "bootstrap_data E w = (Inr u, w')"
  shows "length (trace w) < length (trace w')"
proof -
  obtain r w1 where l: "load_data E (data_file_path E) None w = (r, w1)"
    by (cases "load_data E (data_file_path E) None w")
  show ?thesis
  proof (cases r)
    case (Inr b)
    then have "w' = w1" using assms l by (simp add: bootstrap_data_def)
    moreover have "attempts (policy E) 1 (max_attempts (policy E))
                     (load_data_body E (data_file_path E) None) w = (Inr b, w1)"
      using l Inr by (simp add: load_data_def file_operation_retry_def)
    then have "length (trace w) < length (trace w1)"
      by (rule attempts_returns_longer [OF grows_load_data_body load_data_body_longer])
    ultimately show ?thesis by simp
  next
    case (Inl t)
    then have "create_empty_data_fallback E w1 = (Inr u, w')"
      using assms l by (auto simp: bootstrap_data_def split: prod.splits sum.splits)
    then have "attempts (policy E) 1 (max_attempts (policy E))
                 (create_empty_data_fallback_impl E) w1 = (Inr u, w')"
      by (simp add: create_empty_data_fallback_def file_operation_retry_def)
    then have "length (trace w1) < length (trace w')"
      by (rule attempts_returns_longer [OF grows_fallback_impl fallback_impl_longer])
    moreover have "length (trace w) \<le> length (trace w1)"
      using grows_load_data [of w E "data_file_path E" None] l by (auto dest: grows_length)
    ultimately show ?thesis by simp
  qed
qed

lemma show_splash_cases:
  assumes "show_splash E p w = (r, w')"
  shows "(\<exists>e. r = Inl (Uncaught e)) \<and>
           trace w' \<in> {trace w @ [CreateAuthService],
                        trace w @ [CreateAuthService, CreateMainWindow],
                        trace w @ [CreateAuthService, CreateMainWindow,
                                   CreateSplashScreen (gif_dir E) ''PYE'' p],
                        trace w @ [CreateAuthService, CreateMainWindow,
                                   CreateSplashScreen (gif_dir E) ''PYE'' p, SplashShow]} \<or>
         r = Inr () \<and>
           trace w' = trace w @ [CreateAuthService, CreateMainWindow,
                                 CreateSplashScreen (gif_dir E) ''PYE'' p, SplashShow,
                                 ConnectSplashClosed]"
  using assms by (auto simp: show_splash_def call_simps split: option.splits)

lemma show_splash_reached:
  assumes r: "reached 2 (trace w)" and s: "show_splash E p w = (r4, w')"
  shows "\<exists>j. j \<le> 5 \<and> reached j (trace w') \<and> (r4 = Inr () \<longrightarrow> j = 5)"
proof -
  have n: "reached j (trace w @ ds)"
    if "sorted (ranks ds)" "set (ranks ds) = {Suc 2..j}" "Suc 2 \<le> j" for j ds
    using r that by (rule reached_next)
  have a: "reached 3 (trace w @ [CreateAuthService])"
    by (rule n) (auto simp: ranks_def)
  have b: "reached 4 (trace w @ [CreateAuthService, CreateMainWindow])"
    by (rule n) (auto simp: ranks_def)
  have c: "reached 5 (trace w @ [CreateAuthService, CreateMainWindow,
                                   CreateSplashScreen (gif_dir E) ''PYE'' p])"
    by (rule n) (auto simp: ranks_def)
  have d: "reached 5 (trace w @ [CreateAuthService, CreateMainWindow,
                                   CreateSplashScreen (gif_dir E) ''PYE'' p, SplashShow])"
    by (rule n) (auto simp: ranks_def)
  have e: "reached 5 (trace w @ [CreateAuthService, CreateMainWindow,
                                 CreateSplashScreen (gif_dir E) ''PYE'' p, SplashShow,
                                 ConnectSplashClosed])"
    by (rule n) (auto simp: ranks_def)
  from show_splash_cases [OF s] a b c d e show ?thesis
    by (elim disjE conjE exE) (auto intro: exI [of _ 3] exI [of _ 4] exI [of _ 5])
qed


lemma reached_within: "reached m es \<Longrightarrow> m \<le> n \<Longrightarrow> \<exists>k\<le>n. reached k es"
  by blast

lemma reached_init: "reached 0 (trace (init_logging E init_world))"
  by (simp add: trace_init_logging init_world_def reached_def ranks_def)

lemma bootstrap_reached:
  assumes "bootstrap_data E (init_logging E init_world) = (r, w1)"
  shows "\<exists>m. m \<le> 1 \<and> reached m (trace w1) \<and> (r = Inr () \<longrightarrow> m = 1)"
proof -
  let ?w0 = "init_logging E init_world"
  have "grows in_data ?w0 (snd (bootstrap_data E ?w0))" by (rule grows_bootstrap)
  then have "grows in_data ?w0 w1" by (simp only: assms snd_conv)
  then obtain d where d: "trace w1 = trace ?w0 @ d" "list_all in_data d"
    by (rule grows_obtain)
  have d': "list_all (\<lambda>e. stage_of e = Some DataBootstrap) d"
    using d(2) by (simp add: in_data_def [abs_def])
  show ?thesis
  proof (cases "d = []")
    case True
    then have "r \<noteq> Inr ()"
      using bootstrap_returns_longer [of E ?w0 "()" w1] assms d(1) by auto
    moreover have "reached 0 (trace w1)" using True d(1) reached_init by simp
    ultimately show ?thesis by auto
  next
    case False
    have "reached (Suc 0) (trace ?w0 @ d)"
      using reached_init d' False by (rule reached_block) simp
    then show ?thesis using d(1) by auto
  qed
qed

lemma gif_reached:
  assumes r: "reached 1 (trace w1)"
    and g: "resolve_gif_directory E
              (emit (SetWindowIcon (icon_path E)) w1) = (r2, w2)"
  shows "reached 2 (trace w2)"
proof -
  let ?i = "SetWindowIcon (icon_path E)"
  have "grows in_resource (emit ?i w1) (snd (resolve_gif_directory E (emit ?i w1)))"
    by (rule grows_gif)
  then have "grows in_resource (emit ?i w1) w2" by (simp only: g snd_conv)
  then obtain d where d: "trace w2 = trace (emit ?i w1) @ d" "list_all in_resource d"
    by (rule grows_obtain)
  have "list_all (\<lambda>e. stage_of e = Some ResourceResolution) (?i # d)"
    using d(2) by (simp add: in_resource_def [abs_def])
  with r have "reached (Suc 1) (trace w1 @ ?i # d)"
    by (rule reached_block) simp_all
  then show ?thesis using d(1) by (simp add: emit_def numeral_2_eq_2)
qed

lemma logo_reached:
  assumes r: "reached 2 (trace w2)" and l: "resolve_logo E w2 = (r3, w3)"
  shows "reached 2 (trace w3)"
proof -
  have "grows in_resource w2 (snd (resolve_logo E w2))" by (rule grows_logo)
  then have "grows in_resource w2 w3" by (simp only: l snd_conv)
  then obtain d where d: "trace w3 = trace w2 @ d" "list_all in_resource d"
    by (rule grows_obtain)
  have "list_all (\<lambda>e. stage_of e = Some ResourceResolution) d"
    using d(2) by (simp add: in_resource_def [abs_def])
  with r have "reached 2 (trace w2 @ d)" by (rule reached_more) simp
  then show ?thesis using d(1) by simp
qed

lemma main_sync_reached:
  assumes "main_sync E init_world = (r, w')"
  shows "\<exists>m. m \<le> 5 \<and> reached m (trace w') \<and> (r = Inr () \<longrightarrow> m = 5)"
proof -
  let ?w0 = "init_logging E init_world"
  let ?i = "SetWindowIcon (icon_path E)"
  obtain r1 w1 where b: "bootstrap_data E ?w0 = (r1, w1)" by (cases "bootstrap_data E ?w0")
  from bootstrap_reached [OF b] obtain m1 where
    m1: "m1 \<le> 1" "reached m1 (trace w1)" "r1 = Inr () \<longrightarrow> m1 = 1" by blast
  show ?thesis
  proof (cases r1)
    case (Inl x)
    then have e: "r = Inl x" "w' = w1" using assms b by (simp_all add: main_sync_def)
    have "\<exists>k\<le>5. reached k (trace w1)"
      using m1(2) by (rule reached_within) (use m1(1) in simp)
    then show ?thesis using e by auto
  next
    case (Inr u)
    then have r1: "reached 1 (trace w1)" using m1 by simp
    obtain r2 w2 where g: "resolve_gif_directory E (emit ?i w1) = (r2, w2)"
      by (cases "resolve_gif_directory E (emit ?i w1)")
    have r2: "reached 2 (trace w2)" using r1 g by (rule gif_reached)
    show ?thesis
    proof (cases r2)
      case (Inl x)
      then have e: "r = Inl x" "w' = w2"
        using assms b g \<open>r1 = Inr u\<close> by (simp_all add: main_sync_def resources_and_splash_def)
      have "\<exists>k\<le>5. reached k (trace w2)" using r2 by (rule reached_within) simp
      then show ?thesis using e by auto
    next
      case gr: (Inr u2)
      obtain r3 w3 where l: "resolve_logo E w2 = (r3, w3)" by (cases "resolve_logo E w2")
      have r3: "reached 2 (trace w3)" using r2 l by (rule logo_reached)
      show ?thesis
      proof (cases r3)
        case (Inl x)
        then have e: "r = Inl x" "w' = w3"
          using assms b g l \<open>r1 = Inr u\<close> gr
          by (simp_all add: main_sync_def resources_and_splash_def logo_and_splash_def)
        have "\<exists>k\<le>5. reached k (trace w3)" using r3 by (rule reached_within) simp
        then show ?thesis using e by auto
      next
        case lr: (Inr p)
        have "show_splash E p w3 = (r, w')"
          using assms b g l \<open>r1 = Inr u\<close> gr lr
          by (simp add: main_sync_def resources_and_splash_def logo_and_splash_def)
        from show_splash_reached [OF r3 this] show ?thesis by blast
      qed
    qed
  qed
qed

lemma on_splash_closed_longer:
  "length (trace w) < length (trace (snd (on_splash_closed E w)))"
proof -
  have t: "length (trace v) \<le> length (trace (monitor_memory E (init_dashboard E (update_check E v))))"
    for v by (rule grows_length [OF grows_tasks])
  show ?thesis
    using t [of "emit WindowShow w"] t [of "emit WindowShow (emit SetAuthService w)"]
    by (simp add: on_splash_closed_def call_def emit_def split: option.split)
qed

lemma app_exec_cases:
  "trace (app_exec E w) = trace w @ [AppExec] \<or>
   (\<exists>h t. trace (app_exec E w) = trace w @ [AppExec, SplashClosedSignal] @ h @ t \<and> h \<noteq> [] \<and>
      list_all (\<lambda>e. stage_of e = Some DeferredActivation) h \<and>
      list_all (\<lambda>e. stage_of e = None) t)"
proof (cases "splash_closes E")
  case False
  then show ?thesis by (simp add: app_exec_def emit_def Let_def)
next
  case True
  let ?w2 = "emit SplashClosedSignal (emit AppExec w)"
  obtain r w3 where h: "on_splash_closed E ?w2 = (r, w3)" by (cases "on_splash_closed E ?w2")
  have "grows in_deferred ?w2 (snd (on_splash_closed E ?w2))" by (rule grows_on_splash_closed)
  then have "grows in_deferred ?w2 w3" by (simp only: h snd_conv)
  then obtain d where d: "trace w3 = trace ?w2 @ d" "list_all in_deferred d"
    by (rule grows_obtain)
  have d': "list_all (\<lambda>e. stage_of e = Some DeferredActivation) d"
    using d(2) by (simp add: in_deferred_def [abs_def])
  have ne: "d \<noteq> []"
    using on_splash_closed_longer [of ?w2 E] d(1) by (auto simp: h)
  have t2: "trace ?w2 = trace w @ [AppExec, SplashClosedSignal]" by (simp add: emit_def)
  show ?thesis
  proof (cases r)
    case (Inr u)
    then have "trace (app_exec E w) = trace w @ [AppExec, SplashClosedSignal] @ d @ []"
      using True h d(1) t2 by (simp add: app_exec_def Let_def)
    then show ?thesis using ne d' by (intro disjI2 exI [of _ d] exI [of _ "[]"]) simp
  next
    case (Inl e)
    then have "trace (app_exec E w) = trace w @ [AppExec, SplashClosedSignal] @ d @ [SlotRaised e]"
      using True h d(1) t2 by (simp add: app_exec_def Let_def emit_def)
    then show ?thesis using ne d' by (intro disjI2 exI [of _ d] exI [of _ "[SlotRaised e]"]) simp
  qed
qed

lemma app_exec_reached:
  assumes "reached 5 (trace w)"
  shows "\<exists>m. m \<le> 6 \<and> reached m (trace (app_exec E w))"
  using app_exec_cases [of E w]
proof (elim disjE exE conjE)
  assume "trace (app_exec E w) = trace w @ [AppExec]"
  moreover have "reached 5 (trace w @ [AppExec])"
    using assms by (rule reached_unstaged) simp
  then have "\<exists>k\<le>6. reached k (trace w @ [AppExec])" by (rule reached_within) simp
  ultimately show ?thesis by simp
next
  fix h t
  assume t: "trace (app_exec E w) = trace w @ [AppExec, SplashClosedSignal] @ h @ t"
    and h: "h \<noteq> []" "list_all (\<lambda>e. stage_of e = Some DeferredActivation) h"
    and n: "list_all (\<lambda>e. stage_of e = None) t"
  have "reached 5 (trace w @ [AppExec, SplashClosedSignal])"
    using assms by (rule reached_unstaged) simp
  then have "reached (Suc 5) ((trace w @ [AppExec, SplashClosedSignal]) @ h)"
    using h(2,1) by (rule reached_block) simp
  then have "reached (Suc 5) (((trace w @ [AppExec, SplashClosedSignal]) @ h) @ t)"
    using n by (rule reached_unstaged)
  then have "\<exists>k\<le>6. reached k (((trace w @ [AppExec, SplashClosedSignal]) @ h) @ t)"
    by (rule reached_within) simp
  then show ?thesis using t by simp
qed

lemma main_reached: "\<exists>m. m \<le> 6 \<and> reached m (trace (snd (main E init_world)))"
proof -
  obtain r w' where s: "main_sync E init_world = (r, w')" by (cases "main_sync E init_world")
  from main_sync_reached [OF s] obtain m where
    m: "m \<le> 5" "reached m (trace w')" "r = Inr () \<longrightarrow> m = 5" by blast
  show ?thesis
  proof (cases r)
    case (Inl x)
    have "\<exists>k\<le>6. reached k (trace w')"
      using m(2) by (rule reached_within) (use m(1) in simp)
    then show ?thesis using s Inl by (simp add: main_def)
  next
    case (Inr u)
    then have "reached 5 (trace w')" using m by simp
    from app_exec_reached [OF this, of E] show ?thesis using s Inr by (simp add: main_def)
  qed
qed


lemma inj_stage_rank: "inj stage_rank"
proof (rule injI)
  fix x y assume "stage_rank x = stage_rank y"
  then show "x = y" by (cases x; cases y) simp_all
qed

lemma ranks_all_stages: "map stage_rank all_stages = [0..<7]"
  by (simp add: all_stages_def upt_rec)

lemma reached_prefix:
  assumes "reached m es" "m \<le> 6"
  shows "prefix (remdups_adj (List.map_filter stage_of es)) all_stages"
proof -
  have "map stage_rank (remdups_adj (List.map_filter stage_of es)) = remdups_adj (ranks es)"
    by (simp add: ranks_def remdups_adj_map_injective [OF inj_stage_rank])
  also have "\<dots> = [0..<Suc m]" using assms(1) by (rule reached_remdups)
  also have "\<dots> = take (Suc m) [0..<7]" using assms(2) by (simp del: upt_Suc)
  also have "\<dots> = map stage_rank (take (Suc m) all_stages)"
    by (simp only: ranks_all_stages [symmetric] take_map)
  finally have "remdups_adj (List.map_filter stage_of es) = take (Suc m) all_stages"
    by (simp only: inj_map_eq_map [OF inj_stage_rank])
  then show ?thesis by (simp only: take_is_prefix)
qed

lemma grows_main_sync: "grows sync_event w (snd (main_sync E w))"
proof -
  let ?w0 = "init_logging E w"
  let ?i = "SetWindowIcon (icon_path E)"
  have g0: "grows sync_event w ?w0"
    by (simp add: grows_def init_logging_def emit_def sync_event_def)
  obtain r1 w1 where b: "bootstrap_data E ?w0 = (r1, w1)" by (cases "bootstrap_data E ?w0")
  have "grows in_data ?w0 (snd (bootstrap_data E ?w0))" by (rule grows_bootstrap)
  then have "grows sync_event ?w0 w1"
    unfolding b snd_conv by (rule grows_weaken) (auto simp: in_data_def sync_event_def)
  with g0 have g1: "grows sync_event w w1" by (rule grows_trans)
  have gi: "grows sync_event w (emit ?i w1)"
    using g1 by (rule grows_emit_after) (simp add: sync_event_def)
  obtain r2 w2 where g: "resolve_gif_directory E (emit ?i w1) = (r2, w2)"
    by (cases "resolve_gif_directory E (emit ?i w1)")
  have "grows in_resource (emit ?i w1) (snd (resolve_gif_directory E (emit ?i w1)))"
    by (rule grows_gif)
  then have "grows sync_event (emit ?i w1) w2"
    unfolding g snd_conv by (rule grows_weaken) (auto simp: in_resource_def sync_event_def)
  with gi have g2: "grows sync_event w w2" by (rule grows_trans)
  have "grows (\<lambda>e. stage_of e \<in> {Some ResourceResolution, Some AuthInit, Some WindowConstruction,
                              Some LoadingScreenDisplay}) w2 (snd (logo_and_splash E w2))"
    by (rule grows_logo_and_splash)
  then have "grows sync_event w2 (snd (logo_and_splash E w2))"
    by (rule grows_weaken) (auto simp: sync_event_def)
  with g2 have g3: "grows sync_event w (snd (logo_and_splash E w2))" by (rule grows_trans)
  show ?thesis
    using b g g1 g2 g3
    by (cases r1; cases r2) (simp_all add: main_sync_def resources_and_splash_def)
qed

lemma sync_not_deferred:
  "list_all (\<lambda>e. stage_of e \<noteq> Some DeferredActivation) (trace (snd (main_sync E init_world)))"
proof -
  from grows_main_sync [of init_world E] obtain es where
    "trace (snd (main_sync E init_world)) = trace init_world @ es" "list_all sync_event es"
    by (rule grows_obtain)
  then show ?thesis by (simp add: init_world_def sync_event_def list_all_iff)
qed

lemma deferred_after_signal:
  "list_all (\<lambda>e. stage_of e \<noteq> Some DeferredActivation)
     (takeWhile (\<lambda>e. e \<noteq> SplashClosedSignal) (trace (snd (main E init_world))))"
proof -
  obtain r w' where s: "main_sync E init_world = (r, w')" by (cases "main_sync E init_world")
  from grows_main_sync [of init_world E] obtain es where
    "trace (snd (main_sync E init_world)) = trace init_world @ es" and es: "list_all sync_event es"
    by (rule grows_obtain)
  then have t: "trace w' = es" using s by (simp add: init_world_def)
  have nd: "\<And>e. e \<in> set es \<Longrightarrow> stage_of e \<noteq> Some DeferredActivation"
    and ns: "\<And>e. e \<in> set es \<Longrightarrow> e \<noteq> SplashClosedSignal"
    using es by (auto simp: list_all_iff sync_event_def)
  show ?thesis
  proof (cases r)
    case (Inl x)
    then have "trace (snd (main E init_world)) = es" using s t by (simp add: main_def)
    then show ?thesis using nd by (auto simp: list_all_iff dest: set_takeWhileD)
  next
    case (Inr u)
    then have m: "trace (snd (main E init_world)) = trace (app_exec E w')"
      using s by (simp add: main_def)
    have "takeWhile (\<lambda>e. e \<noteq> SplashClosedSignal) (trace (app_exec E w')) = es @ [AppExec]"
      using app_exec_cases [of E w'] ns by (auto simp: t)
    then show ?thesis using nd by (auto simp: m list_all_iff)
  qed
qed

text \<open>
  The order that holds in every run of \<^verbatim>\<open>main\<close>: the stages of the events of the trace, with
  repetitions dropped, are an initial part of LoggingInit, DataBootstrap,
  ResourceResolution, AuthInit, WindowConstruction, LoadingScreenDisplay,
  DeferredActivation: the stages come in this order, none is skipped and none is
  re-entered once its successor has begun. No event of the Deferred Activation Handler
  occurs in the synchronous part of \<^verbatim>\<open>main\<close>, and in the whole run none occurs before
  the splash screen has emitted its completion signal.
\<close>

theorem stage_order:
  "prefix (remdups_adj (List.map_filter stage_of (trace (snd (main E init_world))))) all_stages \<and>
   list_all (\<lambda>e. stage_of e \<noteq> Some DeferredActivation) (trace (snd (main_sync E init_world))) \<and>
   list_all (\<lambda>e. stage_of e \<noteq> Some DeferredActivation)
     (takeWhile (\<lambda>e. e \<noteq> SplashClosedSignal) (trace (snd (main E init_world))))"
proof -
  from main_reached [of E] obtain m where "m \<le> 6" "reached m (trace (snd (main E init_world)))"
    by blast
  then have "prefix (remdups_adj (List.map_filter stage_of (trace (snd (main E init_world))))) all_stages"
    by (intro reached_prefix)
  then show ?thesis using sync_not_deferred deferred_after_signal by blast
qed

lemma run_ok:
  "trace (snd (main env_ok init_world)) =
     [CreateQApplication, InitLogBook ''logs/app.log'', LoadData ''data/turbines.csv'' None,
      SetWindowIcon ''icons/logo_app.ico'', CreateAuthService, CreateMainWindow,
      CreateSplashScreen ''gifs'' ''PYE'' ''icons/splash_icon.svg'',
      SplashShow, ConnectSplashClosed, AppExec, SplashClosedSignal,
      SetAuthService, WindowShow, CheckForUpdates, CurrentText,
      UpdateDashboard ''Park A'', UpdateParkName ''Park A'',
      UpdateSelectedPark ''Park A'', MonitorMemoryUsage]"
  by (simp add: env_ok_def model_defs eval_nat_numeral)

theorem stage_order_witness:
  "prefix (remdups_adj (List.map_filter stage_of (trace (snd (main env_ok init_world))))) all_stages \<and>
   remdups_adj (List.map_filter stage_of (trace (snd (main env_ok init_world)))) = all_stages \<and>
   takeWhile (\<lambda>e. e \<noteq> SplashClosedSignal) (trace (snd (main env_ok init_world))) =
     [CreateQApplication, InitLogBook ''logs/app.log'', LoadData ''data/turbines.csv'' None,
      SetWindowIcon ''icons/logo_app.ico'', CreateAuthService, CreateMainWindow,
      CreateSplashScreen ''gifs'' ''PYE'' ''icons/splash_icon.svg'',
      SplashShow, ConnectSplashClosed, AppExec]"
  using stage_order [of env_ok]
  by (simp add: run_ok all_stages_def)

text \<open>
  Claim C9, on the run where the data file cannot be read: the data bootstrap ends with
  the load failed and no fallback (one load, one error entry, no data model), so with
  neither a success nor an accepted recoverable fallback, and the sequence goes on all
  the same through every later stage, in the fixed order.
\<close>

theorem unreadable_data_file_stages:
  "bootstrap_data env_unreadable (init_logging env_unreadable init_world) =
     (Inr (),
      \<lparr>trace =
         [CreateQApplication, InitLogBook ''logs/app.log'', LoadData ''data/turbines.csv'' None,
          Log ''pierre'' ''Data Loading Error'' ''Error loading data: Permission denied'' error],
       data_model = None, loads = 1, creates = 0\<rparr>) \<and>
   remdups_adj (List.map_filter stage_of (trace (snd (main env_unreadable init_world)))) =
     all_stages"
  by (simp add: env_unreadable_def env_ok_def model_defs eval_nat_numeral denied_not_missing
      all_stages_def)

section \<open>The retry wrapper: attempts, failures and retries\<close>

lemma attempts_recorded:
  "attempts (lift_policy P) i k (recorded f) (s, l0) = (r, (s', l)) \<Longrightarrow>
     attempts P i k f s = (r, s') \<and>
     (\<exists>l1. l = l0 @ l1 \<and> length l1 \<le> k \<and> (isl r \<longleftrightarrow> list_all isl l1) \<and>
        (\<forall>j. Suc j < length l1 \<longrightarrow> (\<exists>e. l1 ! j = Inl e \<and> retryable P e)))"
proof (induction k arbitrary: i s l0)
  case 0
  then show ?case by auto
next
  case (Suc k)
  obtain x s1 where fs: "f s = (x, s1)" by (cases "f s")
  show ?case
  proof (cases x)
    case (Inr v)
    with Suc.prems fs show ?thesis
      by (auto simp: recorded_def)
  next
    case (Inl e)
    show ?thesis
    proof (cases "retryable P e \<and> k \<noteq> 0")
      case False
      with Suc.prems fs Inl show ?thesis
        by (auto simp: recorded_def lift_policy_def Let_def)
    next
      case True
      with Suc.prems fs Inl
      have rec: "attempts (lift_policy P) (Suc i) k (recorded f)
                   (delay P i (log_attempt P i e s1), l0 @ [Inl e]) = (r, (s', l))"
        by (simp add: recorded_def lift_policy_def Let_def)
      from Suc.IH [OF rec] obtain l1 where
        a: "attempts P (Suc i) k f (delay P i (log_attempt P i e s1)) = (r, s')" and
        l: "l = (l0 @ [Inl e]) @ l1" and n: "length l1 \<le> k" and
        t: "isl r \<longleftrightarrow> list_all isl l1" and
        q: "\<forall>j. Suc j < length l1 \<longrightarrow> (\<exists>e. l1 ! j = Inl e \<and> retryable P e)"
        by blast
      have q': "\<forall>j. Suc j < length (Inl e # l1) \<longrightarrow> (\<exists>e'. (Inl e # l1) ! j = Inl e' \<and> retryable P e')"
      proof (intro allI impI)
        fix j assume j: "Suc j < length (Inl e # l1)"
        show "\<exists>e'. (Inl e # l1) ! j = Inl e' \<and> retryable P e'"
        proof (cases j)
          case 0
          then show ?thesis using True by simp
        next
          case (Suc j')
          then show ?thesis using q j by simp
        qed
      qed
      have "attempts P i (Suc k) f s = (r, s')"
        using a fs Inl True by (simp add: Let_def)
      moreover have "l = l0 @ (Inl e # l1)" using l by simp
      moreover have "length (Inl e # l1) \<le> Suc k" using n by simp
      moreover have "isl r \<longleftrightarrow> list_all isl (Inl e # l1)" using t by simp
      ultimately show ?thesis using q' by blast
    qed
  qed
qed

text \<open>
  Claim C8. Under the retry wrapper with maximum attempt count N, run on an operation
  whose invocations are recorded: the result and final state are those of the plain run;
  the operation is invoked at most N times; a TerminalFailure is propagated to the caller
  if and only if every attempt failed; and an attempt that failed with a cause that is
  not retryable is the last attempt.
\<close>

theorem retry_executor:
  "file_operation_retry (lift_policy P) (recorded f) (s, []) = (r, (s', l)) \<Longrightarrow>
     file_operation_retry P f s = (r, s') \<and>
     length l \<le> max_attempts P \<and>
     (isl r \<longleftrightarrow> list_all isl l) \<and>
     (\<forall>j<length l. \<forall>e. l ! j = Inl e \<and> \<not> retryable P e \<longrightarrow> Suc j = length l)"
proof -
  assume a: "file_operation_retry (lift_policy P) (recorded f) (s, []) = (r, (s', l))"
  then have "attempts (lift_policy P) 1 (max_attempts P) (recorded f) (s, []) = (r, (s', l))"
    by (simp add: file_operation_retry_def lift_policy_def)
  from attempts_recorded [OF this] obtain l1 where
    p: "attempts P 1 (max_attempts P) f s = (r, s')" and l: "l = l1" and
    n: "length l1 \<le> max_attempts P" and t: "isl r \<longleftrightarrow> list_all isl l1" and
    q: "\<forall>j. Suc j < length l1 \<longrightarrow> (\<exists>e. l1 ! j = Inl e \<and> retryable P e)"
    by auto
  have "\<forall>j<length l. \<forall>e. l ! j = Inl e \<and> \<not> retryable P e \<longrightarrow> Suc j = length l"
  proof (intro allI impI)
    fix j e assume j: "j < length l" and e: "l ! j = Inl e \<and> \<not> retryable P e"
    show "Suc j = length l"
    proof (rule ccontr)
      assume "Suc j \<noteq> length l"
      with j have "Suc j < length l1" using l by simp
      with q e l show False by auto
    qed
  qed
  with p l n t show ?thesis by (simp add: file_operation_retry_def)
qed

lemma flaky_run:
  "file_operation_retry (lift_policy three_tries) (recorded flaky) (0, []) =
     (Inr 2, (3, [Inl (Exception ''busy''), Inl (Exception ''busy''), Inr 2]))"
  by (simp add: file_operation_retry_def lift_policy_def three_tries_def recorded_def flaky_def
      eval_nat_numeral)

theorem retry_executor_witness:
  "file_operation_retry (lift_policy three_tries) (recorded flaky) (0, []) =
     (Inr 2, (3, [Inl (Exception ''busy''), Inl (Exception ''busy''), Inr 2])) \<and>
   file_operation_retry three_tries flaky 0 = (Inr 2, 3) \<and>
   length [Inl (Exception ''busy''), Inl (Exception ''busy''), Inr (2::nat) :: exn + nat] \<le> max_attempts three_tries"
  using retry_executor [OF flaky_run] flaky_run by simp


end
